theory Spec2Isabelle
  imports Complex_Main "HOL-Library.Word"
begin

section \<open>Numbers\<close>

text \<open>
  C++ \<open>int\<close> and \<open>int32_t\<close> are 32-bit words, read as two's complement by \<open>sint\<close>.
  Their sums and products wrap around, as the machine's do (for C++ an overflow of \<open>int\<close>
  has no defined behaviour).
  The members \<open>axis_\<close>, \<open>KV_\<close>, \<open>info_\<close>, ... of the class lose their trailing underscore
  here (\<open>axis\<close>, \<open>KV\<close>, \<open>info\<close>, ...), since Isabelle rejects names that end in one.
\<close>

type_synonym int32 = "32 word"

text \<open>
  C++ \<open>double\<close> and \<open>float\<close> values. The operations on \<open>double\<close> are idealised: the
  finite values are reals and a product or quotient of them is exact (no rounding, no
  overflow, no signed zero). The special values of IEEE 754 are kept, so that a division by
  zero gives what the machine gives (an infinity, or not-a-number for \<open>0 / 0\<close>). The
  narrowing of a \<open>double\<close> to a \<open>float\<close> is \<open>to_float\<close> below.
\<close>

datatype dbl = Fin real | PInf | MInf | NaN

definition inf_of_sign :: "real \<Rightarrow> dbl" where
  "inf_of_sign r = (if r = 0 then NaN else if 0 < r then PInf else MInf)"

fun dsgn :: "dbl \<Rightarrow> real" where
  "dsgn (Fin a) = sgn a"
| "dsgn PInf = 1"
| "dsgn MInf = - 1"
| "dsgn NaN = 0"

fun dmul :: "dbl \<Rightarrow> dbl \<Rightarrow> dbl" where
  "dmul NaN y = NaN"
| "dmul x NaN = NaN"
| "dmul (Fin a) (Fin b) = Fin (a * b)"
| "dmul x y = inf_of_sign (dsgn x * dsgn y)"

fun ddiv :: "dbl \<Rightarrow> dbl \<Rightarrow> dbl" where
  "ddiv NaN y = NaN"
| "ddiv x NaN = NaN"
| "ddiv (Fin a) (Fin b) = (if b = 0 then inf_of_sign a else Fin (a / b))"
| "ddiv (Fin a) y = Fin 0"
| "ddiv x (Fin b) = inf_of_sign (dsgn x * (if b < 0 then - 1 else 1))"
| "ddiv x y = NaN"

text \<open>
  The conversion of a \<open>double\<close> to \<open>float\<close> (IEEE 754 binary32, round to nearest, ties to
  even): a value is rounded to the nearest multiple of the spacing of the floats of its
  magnitude, and becomes an infinity when the result is beyond the largest float.
  \<open>ulp m\<close> is that spacing: \<open>2 ^ (e - 23)\<close> for \<open>2 ^ e \<le> m < 2 ^ (e + 1)\<close>, with \<open>e\<close> no less
  than -126 (below, the floats are subnormal) and no more than 127.
\<close>

definition round_even :: "real \<Rightarrow> int" where
  "round_even y =
     (let n = \<lfloor>y\<rfloor>; f = y - of_int n
      in if f < 1 / 2 then n
         else if 1 / 2 < f then n + 1
         else if even n then n else n + 1)"

fun ulp_up :: "nat \<Rightarrow> real \<Rightarrow> real" where
  "ulp_up 0 m = 1 / 2 ^ 23"
| "ulp_up (Suc n) m = (if m < 2 then 1 / 2 ^ 23 else 2 * ulp_up n (m / 2))"

fun ulp_down :: "nat \<Rightarrow> real \<Rightarrow> real" where
  "ulp_down 0 m = 1 / 2 ^ 23"
| "ulp_down (Suc n) m = (if 1 \<le> m then 1 / 2 ^ 23 else ulp_down n (2 * m) / 2)"

definition ulp :: "real \<Rightarrow> real" where
  "ulp m = (if 1 \<le> m then ulp_up 127 m else ulp_down 126 m)"

definition to_float :: "dbl \<Rightarrow> dbl" where
  "to_float x =
     (case x of
        Fin a \<Rightarrow>
          (let m = \<bar>a\<bar>; q = ulp m; r = q * of_int (round_even (m / q))
           in if 2 ^ 128 \<le> r then inf_of_sign a else Fin (sgn a * r))
      | PInf \<Rightarrow> PInf
      | MInf \<Rightarrow> MInf
      | NaN \<Rightarrow> NaN)"

definition of_int32 :: "int32 \<Rightarrow> dbl" where
  "of_int32 k = Fin (real_of_int (sint k))"

definition M_PI :: dbl where
  "M_PI = Fin pi"

text \<open>
  The four conversions, as written at lines 173, 185/197, 219 and 230/241 of the source.
  Those of \<open>write\<close> are assigned to the \<open>float\<close> variables \<open>Iq_setpoint\<close>, \<open>input_vel\<close> and
  \<open>input_pos\<close> of line 209.
\<close>

definition current_to_effort :: "dbl \<Rightarrow> int32 \<Rightarrow> dbl" where
  "current_to_effort Iq_measured kv = ddiv (dmul Iq_measured (Fin 8.27)) (of_int32 kv)"

definition turns_to_rad :: "dbl \<Rightarrow> dbl" where
  "turns_to_rad estimate = dmul (dmul estimate (Fin 2)) M_PI"

definition effort_to_current :: "dbl \<Rightarrow> int32 \<Rightarrow> dbl" where
  "effort_to_current command kv = to_float (dmul (ddiv command (Fin 8.27)) (of_int32 kv))"

definition rad_to_turns :: "dbl \<Rightarrow> dbl" where
  "rad_to_turns command = to_float (ddiv (ddiv command (Fin 2)) M_PI)"

section \<open>Data model\<close>

text \<open>
  \<open>hardware_interface::ComponentInfo\<close> and \<open>HardwareInfo\<close>, with the fields the adapter
  reads. An interface is represented by its \<open>name\<close>, the only field the adapter looks at.
\<close>

record ComponentInfo =
  name :: string
  command_interfaces :: "string list"
  state_interfaces :: "string list"
  parameters :: "string \<rightharpoonup> string"

record HardwareInfo =
  joints :: "ComponentInfo list"

datatype return_type = OK | ERROR

datatype status = UNKNOWN | CONFIGURED | STARTED | STOPPED

datatype integration_level_t = UNDEFINED | EFFORT | VELOCITY | POSITION

text \<open>
  The register map of \<open>odrive_usb.hpp\<close> is not part of the sources at hand: the endpoint
  numbers and the per-axis offset are parameters of the model. So are the interface
  names of the framework.
\<close>

record endpoints =
  AXIS__REQUESTED_STATE :: int32
  AXIS__MOTOR__CURRENT_CONTROL__IQ_MEASURED :: int32
  AXIS__ENCODER__VEL_ESTIMATE :: int32
  AXIS__ENCODER__POS_ESTIMATE :: int32
  AXIS__MOTOR__CURRENT_CONTROL__IQ_SETPOINT :: int32
  AXIS__CONTROLLER__INPUT_VEL :: int32
  AXIS__CONTROLLER__INPUT_POS :: int32
  per_axis_offset :: int32

record hw_if =
  HW_IF_POSITION :: string
  HW_IF_VELOCITY :: string
  HW_IF_EFFORT :: string

definition AXIS_STATE_IDLE :: int32 where
  "AXIS_STATE_IDLE = 1"

definition AXIS_STATE_CLOSED_LOOP_CONTROL :: int32 where
  "AXIS_STATE_CLOSED_LOOP_CONTROL = 8"

subsection \<open>The transport and the logger\<close>

text \<open>
  \<open>ODriveUSB\<close> is a black box with \<open>init\<close>, \<open>read\<close> and \<open>write\<close>. What the adapter
  asks of it is recorded, in order, in the list \<open>usb\<close>; what it answers is given by a
  \<open>device\<close>, any function of the operations so far and of the request. A result code
  other than 0 is a failure. \<open>write\<close> is called with a \<open>float\<close> (the setpoints) or an
  \<open>int32_t\<close> (the requested state).
\<close>

datatype wire = Float32 dbl | Int32 int32

datatype io_op = UsbInit | UsbRead int32 | UsbWrite int32 wire

record device =
  dev_init :: "io_op list \<Rightarrow> int32"
  dev_read :: "io_op list \<Rightarrow> int32 \<Rightarrow> int32 \<times> dbl"
  dev_write :: "io_op list \<Rightarrow> int32 \<Rightarrow> wire \<Rightarrow> int32"

text \<open>
  The messages of \<open>RCLCPP_ERROR\<close> and \<open>RCLCPP_INFO\<close>, in order, in the list \<open>rosout\<close>.
  \<open>ErrLibusb r\<close> stands for the text \<open>libusb_error_name(r)\<close>.
\<close>

datatype log_entry =
    ErrCommandCount string
  | ErrCommandKind string string
  | ErrStateCount string
  | ErrStateKind string string
  | ErrLibusb int32
  | InfoNothingUsing

subsection \<open>The adapter\<close>

text \<open>
  The members of \<open>ODriveHardwareInterface\<close> and of its base class, then the two records
  of the world outside. \<open>odrive\<close> tells whether the pointer holds an \<open>ODriveUSB\<close> object.
\<close>

record hw =
  info :: HardwareInfo
  status :: status
  odrive :: bool
  axis_requested_state :: int32
  axis :: "int32 list"
  KV :: "int32 list"
  hw_commands_positions :: "dbl list"
  hw_commands_velocities :: "dbl list"
  hw_commands_efforts :: "dbl list"
  hw_positions :: "dbl list"
  hw_velocities :: "dbl list"
  hw_efforts :: "dbl list"
  control_level :: "integration_level_t list"
  usb :: "io_op list"
  rosout :: "log_entry list"

text \<open>
  How a call ends: it returns, it leaves by a C++ exception that nothing catches, or it
  has no defined behaviour (an index beyond the end of a vector, a pointer never set).
\<close>

datatype exn = StdOutOfRange | StdInvalidArgument

datatype outcome = Returned return_type | Threw exn | Fault

definition usb_write :: "device \<Rightarrow> int32 \<Rightarrow> wire \<Rightarrow> hw \<Rightarrow> int32 \<times> hw" where
  "usb_write dev ep v s = (dev_write dev (usb s) ep v, s\<lparr>usb := usb s @ [UsbWrite ep v]\<rparr>)"

definition usb_read :: "device \<Rightarrow> int32 \<Rightarrow> hw \<Rightarrow> (int32 \<times> dbl) \<times> hw" where
  "usb_read dev ep s = (dev_read dev (usb s) ep, s\<lparr>usb := usb s @ [UsbRead ep]\<rparr>)"

definition log_msg :: "log_entry \<Rightarrow> hw \<Rightarrow> hw" where
  "log_msg m s = s\<lparr>rosout := rosout s @ [m]\<rparr>"

text \<open>
  The loops \<open>for (size_t i = 0; i < info_.joints.size(); i++)\<close> and
  \<open>for (const ComponentInfo& joint : info_.joints)\<close>: the body runs on each index (each
  joint) in turn and either goes on (\<open>None\<close>) or leaves the function with an outcome.
\<close>

fun for_each :: "('a \<Rightarrow> hw \<Rightarrow> outcome option \<times> hw) \<Rightarrow> 'a list \<Rightarrow> hw \<Rightarrow> outcome option \<times> hw" where
  "for_each body [] s = (None, s)"
| "for_each body (x # rest) s =
     (case body x s of
        (None, s') \<Rightarrow> for_each body rest s'
      | (Some r, s') \<Rightarrow> (Some r, s'))"

section \<open>start and stop\<close>

text \<open>The body of the loop of \<open>start\<close> (lines 126-132) and of \<open>stop\<close> (lines 144-150).\<close>

definition request_state_joint :: "device \<Rightarrow> endpoints \<Rightarrow> nat \<Rightarrow> hw \<Rightarrow> outcome option \<times> hw" where
  "request_state_joint dev rm i s =
     (if \<not> odrive s \<or> \<not> i < length (axis s) then (Some Fault, s)
      else
        let (result, s1) =
              usb_write dev (AXIS__REQUESTED_STATE rm + per_axis_offset rm * axis s ! i)
                (Int32 (axis_requested_state s)) s
        in if result \<noteq> 0 then (Some (Returned ERROR), log_msg (ErrLibusb result) s1)
           else (None, s1))"

definition start :: "device \<Rightarrow> endpoints \<Rightarrow> hw \<Rightarrow> outcome \<times> hw" where
  "start dev rm s =
     (let s0 = s\<lparr>axis_requested_state := AXIS_STATE_CLOSED_LOOP_CONTROL\<rparr>
      in case for_each (request_state_joint dev rm) [0..<length (joints (info s0))] s0 of
           (Some r, s') \<Rightarrow> (r, s')
         | (None, s') \<Rightarrow> (Returned OK, s'\<lparr>status := STARTED\<rparr>))"

definition stop :: "device \<Rightarrow> endpoints \<Rightarrow> hw \<Rightarrow> outcome \<times> hw" where
  "stop dev rm s =
     (let s0 = s\<lparr>axis_requested_state := AXIS_STATE_IDLE\<rparr>
      in case for_each (request_state_joint dev rm) [0..<length (joints (info s0))] s0 of
           (Some r, s') \<Rightarrow> (r, s')
         | (None, s') \<Rightarrow> (Returned OK, s'\<lparr>status := STOPPED\<rparr>))"

section \<open>read\<close>

text \<open>The body of the loop of \<open>read\<close> (lines 161-198).\<close>

definition read_joint :: "device \<Rightarrow> endpoints \<Rightarrow> nat \<Rightarrow> hw \<Rightarrow> outcome option \<times> hw" where
  "read_joint dev rm i s =
     (if \<not> odrive s \<or> \<not> i < length (axis s) then (Some Fault, s)
      else
        let ((result, Iq_measured), s1) =
              usb_read dev
                (AXIS__MOTOR__CURRENT_CONTROL__IQ_MEASURED rm + per_axis_offset rm * axis s ! i) s
        in if result \<noteq> 0 then (Some (Returned ERROR), log_msg (ErrLibusb result) s1)
           else if \<not> (i < length (hw_efforts s1) \<and> i < length (KV s1)) then (Some Fault, s1)
           else
             let s2 = s1\<lparr>hw_efforts :=
                         (hw_efforts s1)[i := current_to_effort Iq_measured (KV s1 ! i)]\<rparr>;
                 ((result, vel_estimate), s3) =
                   usb_read dev (AXIS__ENCODER__VEL_ESTIMATE rm + per_axis_offset rm * axis s2 ! i) s2
             in if result \<noteq> 0 then (Some (Returned ERROR), log_msg (ErrLibusb result) s3)
                else if \<not> i < length (hw_velocities s3) then (Some Fault, s3)
                else
                  let s4 = s3\<lparr>hw_velocities :=
                              (hw_velocities s3)[i := turns_to_rad vel_estimate]\<rparr>;
                      ((result, pos_estimate), s5) =
                        usb_read dev
                          (AXIS__ENCODER__POS_ESTIMATE rm + per_axis_offset rm * axis s4 ! i) s4
                  in if result \<noteq> 0 then (Some (Returned ERROR), log_msg (ErrLibusb result) s5)
                     else if \<not> i < length (hw_positions s5) then (Some Fault, s5)
                     else (None, s5\<lparr>hw_positions :=
                                    (hw_positions s5)[i := turns_to_rad pos_estimate]\<rparr>))"

definition read :: "device \<Rightarrow> endpoints \<Rightarrow> hw \<Rightarrow> outcome \<times> hw" where
  "read dev rm s =
     (case for_each (read_joint dev rm) [0..<length (joints (info s))] s of
        (Some r, s') \<Rightarrow> (r, s')
      | (None, s') \<Rightarrow> (Returned OK, s'))"

section \<open>write\<close>

text \<open>The body of the loop of \<open>write\<close> (lines 208-250): the switch on \<open>control_level_[i]\<close>.\<close>

definition write_joint :: "device \<Rightarrow> endpoints \<Rightarrow> nat \<Rightarrow> hw \<Rightarrow> outcome option \<times> hw" where
  "write_joint dev rm i s =
     (if \<not> i < length (control_level s) then (Some Fault, s)
      else
        case control_level s ! i of
          UNDEFINED \<Rightarrow> (Some (Returned OK), log_msg InfoNothingUsing s)
        | EFFORT \<Rightarrow>
            if \<not> (i < length (hw_commands_efforts s) \<and> i < length (KV s) \<and> odrive s \<and>
                  i < length (axis s))
            then (Some Fault, s)
            else
              let Iq_setpoint = effort_to_current (hw_commands_efforts s ! i) (KV s ! i);
                  (result, s1) =
                    usb_write dev
                      (AXIS__MOTOR__CURRENT_CONTROL__IQ_SETPOINT rm + per_axis_offset rm * axis s ! i)
                      (Float32 Iq_setpoint) s
              in if result \<noteq> 0 then (Some (Returned ERROR), log_msg (ErrLibusb result) s1)
                 else (None, s1)
        | VELOCITY \<Rightarrow>
            if \<not> (i < length (hw_commands_velocities s) \<and> odrive s \<and> i < length (axis s))
            then (Some Fault, s)
            else
              let input_vel = rad_to_turns (hw_commands_velocities s ! i);
                  (result, s1) =
                    usb_write dev (AXIS__CONTROLLER__INPUT_VEL rm + per_axis_offset rm * axis s ! i)
                      (Float32 input_vel) s
              in if result \<noteq> 0 then (Some (Returned ERROR), log_msg (ErrLibusb result) s1)
                 else (None, s1)
        | POSITION \<Rightarrow>
            if \<not> (i < length (hw_commands_positions s) \<and> odrive s \<and> i < length (axis s))
            then (Some Fault, s)
            else
              let input_pos = rad_to_turns (hw_commands_positions s ! i);
                  (result, s1) =
                    usb_write dev (AXIS__CONTROLLER__INPUT_POS rm + per_axis_offset rm * axis s ! i)
                      (Float32 input_pos) s
              in if result \<noteq> 0 then (Some (Returned ERROR), log_msg (ErrLibusb result) s1)
                 else (None, s1))"

definition "write" :: "device \<Rightarrow> endpoints \<Rightarrow> hw \<Rightarrow> outcome \<times> hw" where
  "write dev rm s =
     (case for_each (write_joint dev rm) [0..<length (joints (info s))] s of
        (Some r, s') \<Rightarrow> (r, s')
      | (None, s') \<Rightarrow> (Returned OK, s'))"

section \<open>configure\<close>

text \<open>\<open>std::vector::resize(n, v)\<close>: cut to \<open>n\<close> elements, or filled up to \<open>n\<close> with \<open>v\<close>.\<close>

definition resize :: "nat \<Rightarrow> 'a \<Rightarrow> 'a list \<Rightarrow> 'a list" where
  "resize n v xs = take n xs @ replicate (n - length xs) v"

text \<open>
  \<open>std::stoi(str)\<close>, base 10: white space is skipped, then an optional sign, then the
  longest run of decimal digits is read; what follows the digits is ignored. Without a
  digit it throws \<open>std::invalid_argument\<close>, with a value outside \<open>int\<close> it throws
  \<open>std::out_of_range\<close>.
\<close>

definition isspace :: "char \<Rightarrow> bool" where
  "isspace c \<longleftrightarrow> c \<in> set [CHR '' '', CHR 0x09, CHR 0x0A, CHR 0x0B, CHR 0x0C, CHR 0x0D]"

definition isdigit :: "char \<Rightarrow> bool" where
  "isdigit c \<longleftrightarrow> (48::nat) \<le> of_char c \<and> of_char c \<le> (57::nat)"

definition digit_value :: "char \<Rightarrow> int" where
  "digit_value c = int (of_char c) - 48"

definition stoi :: "string \<Rightarrow> exn + int32" where
  "stoi str =
     (let s1 = dropWhile isspace str;
          (neg, s2) =
            (case s1 of
               [] \<Rightarrow> (False, s1)
             | c # r \<Rightarrow>
                 if c = CHR ''-'' then (True, r)
                 else if c = CHR ''+'' then (False, r)
                 else (False, s1));
          digits = takeWhile isdigit s2;
          n = foldl (\<lambda>a c. 10 * a + digit_value c) 0 digits;
          v = (if neg then - n else n)
      in if digits = [] then Inl StdInvalidArgument
         else if v < - (2 ^ 31) \<or> 2 ^ 31 - 1 < v then Inl StdOutOfRange
         else Inr (word_of_int v))"

text \<open>\<open>std::stoi(joint.parameters.at(key))\<close>: \<open>at\<close> throws \<open>std::out_of_range\<close> on a missing key.\<close>

definition stoi_at :: "ComponentInfo \<Rightarrow> string \<Rightarrow> exn + int32" where
  "stoi_at joint key =
     (case parameters joint key of
        None \<Rightarrow> Inl StdOutOfRange
      | Some str \<Rightarrow> stoi str)"

text \<open>The body of the loop of \<open>configure\<close> (lines 37-74).\<close>

definition configure_joint :: "hw_if \<Rightarrow> ComponentInfo \<Rightarrow> hw \<Rightarrow> outcome option \<times> hw" where
  "configure_joint hif joint s =
     (if length (command_interfaces joint) \<noteq> 3
      then (Some (Returned ERROR), log_msg (ErrCommandCount (name joint)) s)
      else if \<not> (command_interfaces joint ! 0 = HW_IF_POSITION hif \<or>
                  command_interfaces joint ! 0 = HW_IF_VELOCITY hif \<or>
                  command_interfaces joint ! 0 = HW_IF_EFFORT hif)
      then (Some (Returned ERROR),
            log_msg (ErrCommandKind (name joint) (command_interfaces joint ! 0)) s)
      else if length (state_interfaces joint) \<noteq> 3
      then (Some (Returned ERROR), log_msg (ErrStateCount (name joint)) s)
      else if \<not> (state_interfaces joint ! 0 = HW_IF_POSITION hif \<or>
                  state_interfaces joint ! 0 = HW_IF_VELOCITY hif \<or>
                  state_interfaces joint ! 0 = HW_IF_EFFORT hif)
      then (Some (Returned ERROR),
            log_msg (ErrStateKind (name joint) (state_interfaces joint ! 0)) s)
      else
        case stoi_at joint ''axis'' of
          Inl e \<Rightarrow> (Some (Threw e), s)
        | Inr a \<Rightarrow>
            (let s1 = s\<lparr>axis := axis s @ [a]\<rparr>
             in (case stoi_at joint ''KV'' of
                   Inl e \<Rightarrow> (Some (Threw e), s1)
                 | Inr k \<Rightarrow> (None, s1\<lparr>KV := KV s1 @ [k]\<rparr>))))"

text \<open>
  \<open>configure_default\<close> belongs to the base class of the framework and is not in the sources
  at hand: it stores \<open>info\<close> in \<open>info_\<close>; the result it reports and the status it leaves
  are parameters of the model.
\<close>

definition configure ::
  "hw_if \<Rightarrow> device \<Rightarrow> return_type \<times> status \<Rightarrow> HardwareInfo \<Rightarrow> hw \<Rightarrow> outcome \<times> hw" where
  "configure hif dev configure_default info_arg s =
     (let s0 = s\<lparr>info := info_arg, status := snd configure_default\<rparr>
      in if fst configure_default \<noteq> OK then (Returned ERROR, s0)
         else
           let n = length (joints (info s0));
               s1 = s0\<lparr>hw_positions := resize n NaN (hw_positions s0),
                       hw_velocities := resize n NaN (hw_velocities s0),
                       hw_efforts := resize n NaN (hw_efforts s0),
                       hw_commands_positions := resize n (Fin 0) (hw_commands_positions s0),
                       hw_commands_velocities := resize n (Fin 0) (hw_commands_velocities s0),
                       hw_commands_efforts := resize n (Fin 0) (hw_commands_efforts s0),
                       control_level := resize n VELOCITY (control_level s0)\<rparr>
           in case for_each (configure_joint hif) (joints (info s1)) s1 of
                (Some r, s') \<Rightarrow> (r, s')
              | (None, s2) \<Rightarrow>
                  let result = dev_init dev (usb s2);
                      s3 = s2\<lparr>odrive := True, usb := usb s2 @ [UsbInit]\<rparr>
                  in if result \<noteq> 0 then (Returned ERROR, log_msg (ErrLibusb result) s3)
                     else (Returned OK, s3\<lparr>status := CONFIGURED\<rparr>))"

text \<open>
  The adapter as its constructor leaves it: the vectors are empty; the members without an
  initialiser (the pointer, the requested state, the status) are given as they are found.
\<close>

definition fresh :: "HardwareInfo \<Rightarrow> status \<Rightarrow> int32 \<Rightarrow> io_op list \<Rightarrow> log_entry list \<Rightarrow> hw" where
  "fresh prev st rq us lg =
     \<lparr>info = prev, status = st, odrive = False, axis_requested_state = rq,
      axis = [], KV = [],
      hw_commands_positions = [], hw_commands_velocities = [], hw_commands_efforts = [],
      hw_positions = [], hw_velocities = [], hw_efforts = [],
      control_level = [], usb = us, rosout = lg\<rparr>"

section \<open>The life of the adapter\<close>

datatype call = Start | Stop | Read | Write

fun step :: "device \<Rightarrow> endpoints \<Rightarrow> call \<Rightarrow> hw \<Rightarrow> outcome \<times> hw" where
  "step dev rm Start s = start dev rm s"
| "step dev rm Stop s = stop dev rm s"
| "step dev rm Read s = read dev rm s"
| "step dev rm Write s = write dev rm s"

fun run :: "device \<Rightarrow> endpoints \<Rightarrow> call list \<Rightarrow> hw \<Rightarrow> hw" where
  "run dev rm [] s = s"
| "run dev rm (c # cs) s = run dev rm cs (snd (step dev rm c s))"

text \<open>Every vector has one entry for each joint.\<close>

definition sized :: "hw \<Rightarrow> bool" where
  "sized s \<longleftrightarrow>
     (let n = length (joints (info s))
      in length (axis s) = n \<and> length (KV s) = n \<and>
         length (hw_commands_positions s) = n \<and> length (hw_commands_velocities s) = n \<and>
         length (hw_commands_efforts s) = n \<and>
         length (hw_positions s) = n \<and> length (hw_velocities s) = n \<and>
         length (hw_efforts s) = n \<and> length (control_level s) = n)"

definition ready :: "hw \<Rightarrow> bool" where
  "ready s \<longleftrightarrow> sized s \<and> odrive s"

section \<open>Vocabulary of the statements\<close>

text \<open>
  The result code that the device gives to an operation issued after the operations \<open>h\<close>,
  and to the \<open>k\<close>-th operation of a sequence \<open>ops\<close> issued after \<open>h\<close>.
\<close>

fun result_code :: "device \<Rightarrow> io_op list \<Rightarrow> io_op \<Rightarrow> int32" where
  "result_code dev h UsbInit = dev_init dev h"
| "result_code dev h (UsbRead ep) = fst (dev_read dev h ep)"
| "result_code dev h (UsbWrite ep v) = dev_write dev h ep v"

definition result_at :: "device \<Rightarrow> io_op list \<Rightarrow> io_op list \<Rightarrow> nat \<Rightarrow> int32" where
  "result_at dev h ops k = result_code dev (h @ take k ops) (ops ! k)"

text \<open>The requested-state write of joint \<open>i\<close>, with value \<open>v\<close>.\<close>

definition request_op :: "endpoints \<Rightarrow> hw \<Rightarrow> int32 \<Rightarrow> nat \<Rightarrow> io_op" where
  "request_op rm s v i =
     UsbWrite (AXIS__REQUESTED_STATE rm + per_axis_offset rm * axis s ! i) (Int32 v)"

definition requesting :: "endpoints \<Rightarrow> hw \<Rightarrow> int32 \<Rightarrow> nat \<Rightarrow> hw" where
  "requesting rm s v k =
     s\<lparr>axis_requested_state := v, usb := usb s @ map (request_op rm s v) [0..<k]\<rparr>"

text \<open>
  The transport write that \<open>write\<close> owes to joint \<open>i\<close>: none for an undefined control
  level, else one, with the command converted to the units of the device and narrowed to
  \<open>float\<close>.
\<close>

definition write_ops :: "endpoints \<Rightarrow> hw \<Rightarrow> nat \<Rightarrow> io_op list" where
  "write_ops rm s i =
     (case control_level s ! i of
        UNDEFINED \<Rightarrow> []
      | EFFORT \<Rightarrow>
          [UsbWrite (AXIS__MOTOR__CURRENT_CONTROL__IQ_SETPOINT rm + per_axis_offset rm * axis s ! i)
             (Float32
                (to_float (dmul (ddiv (hw_commands_efforts s ! i) (Fin 8.27)) (of_int32 (KV s ! i)))))]
      | VELOCITY \<Rightarrow>
          [UsbWrite (AXIS__CONTROLLER__INPUT_VEL rm + per_axis_offset rm * axis s ! i)
             (Float32 (to_float (ddiv (hw_commands_velocities s ! i) (Fin (2 * pi)))))]
      | POSITION \<Rightarrow>
          [UsbWrite (AXIS__CONTROLLER__INPUT_POS rm + per_axis_offset rm * axis s ! i)
             (Float32 (to_float (ddiv (hw_commands_positions s ! i) (Fin (2 * pi)))))])"

definition writes_upto :: "endpoints \<Rightarrow> hw \<Rightarrow> nat \<Rightarrow> io_op list" where
  "writes_upto rm s k = concat (map (write_ops rm s) [0..<k])"

text \<open>The result code of the write of joint \<open>i\<close>, issued after those of the joints before.\<close>

definition write_result :: "device \<Rightarrow> endpoints \<Rightarrow> hw \<Rightarrow> nat \<Rightarrow> int32" where
  "write_result dev rm s i =
     (case write_ops rm s i of
        [] \<Rightarrow> 0
      | op # _ \<Rightarrow> result_code dev (usb s @ writes_upto rm s i) op)"

definition writing :: "endpoints \<Rightarrow> hw \<Rightarrow> nat \<Rightarrow> hw" where
  "writing rm s k = s\<lparr>usb := usb s @ writes_upto rm s k\<rparr>"

text \<open>Joint \<open>j\<close> ends the loop of \<open>write\<close>: its level is undefined, or its write fails.\<close>

definition stops :: "device \<Rightarrow> endpoints \<Rightarrow> hw \<Rightarrow> nat \<Rightarrow> bool" where
  "stops dev rm s j \<longleftrightarrow> control_level s ! j = UNDEFINED \<or> write_result dev rm s j \<noteq> 0"

text \<open>The adapter with other contents in its three command buffers.\<close>

definition with_commands :: "dbl list \<Rightarrow> dbl list \<Rightarrow> dbl list \<Rightarrow> hw \<Rightarrow> hw" where
  "with_commands p v e s =
     s\<lparr>hw_commands_positions := p, hw_commands_velocities := v, hw_commands_efforts := e\<rparr>"






text \<open>
  The interface declarations of a joint pass the four checks of \<open>configure\<close>: three
  command interfaces and three state interfaces, the first of each named position,
  velocity or effort.
\<close>

definition interfaces_ok :: "hw_if \<Rightarrow> ComponentInfo \<Rightarrow> bool" where
  "interfaces_ok hif joint \<longleftrightarrow>
     length (command_interfaces joint) = 3 \<and>
     command_interfaces joint ! 0 \<in> {HW_IF_POSITION hif, HW_IF_VELOCITY hif, HW_IF_EFFORT hif} \<and>
     length (state_interfaces joint) = 3 \<and>
     state_interfaces joint ! 0 \<in> {HW_IF_POSITION hif, HW_IF_VELOCITY hif, HW_IF_EFFORT hif}"

text \<open>The message for a joint whose declarations do not pass: that of the first failed check.\<close>

definition rejection :: "hw_if \<Rightarrow> ComponentInfo \<Rightarrow> log_entry" where
  "rejection hif joint =
     (if length (command_interfaces joint) \<noteq> 3 then ErrCommandCount (name joint)
      else if command_interfaces joint ! 0 \<notin>
                {HW_IF_POSITION hif, HW_IF_VELOCITY hif, HW_IF_EFFORT hif}
      then ErrCommandKind (name joint) (command_interfaces joint ! 0)
      else if length (state_interfaces joint) \<noteq> 3 then ErrStateCount (name joint)
      else ErrStateKind (name joint) (state_interfaces joint ! 0))"

text \<open>The value of a parameter that \<open>std::stoi\<close> accepts (0 stands in where it throws).\<close>

definition parsed :: "string \<Rightarrow> ComponentInfo \<Rightarrow> int32" where
  "parsed key joint = (case stoi_at joint key of Inl e \<Rightarrow> 0 | Inr v \<Rightarrow> v)"

definition parses :: "ComponentInfo \<Rightarrow> bool" where
  "parses joint \<longleftrightarrow>
     stoi_at joint ''axis'' = Inr (parsed ''axis'' joint) \<and>
     stoi_at joint ''KV'' = Inr (parsed ''KV'' joint)"

text \<open>The adapter after \<open>configure\<close> has gone through the joints \<open>js\<close> with success.\<close>

definition configuring :: "ComponentInfo list \<Rightarrow> hw \<Rightarrow> hw" where
  "configuring js s =
     s\<lparr>axis := axis s @ map (parsed ''axis'') js, KV := KV s @ map (parsed ''KV'') js\<rparr>"

text \<open>
  The adapter when the loop of \<open>configure\<close> starts: \<open>info\<close> is stored, the six buffers and
  the control levels are resized.
\<close>

definition allocated :: "status \<Rightarrow> HardwareInfo \<Rightarrow> hw \<Rightarrow> hw" where
  "allocated st info_arg s =
     (let n = length (joints info_arg)
      in s\<lparr>info := info_arg, status := st,
           hw_positions := resize n NaN (hw_positions s),
           hw_velocities := resize n NaN (hw_velocities s),
           hw_efforts := resize n NaN (hw_efforts s),
           hw_commands_positions := resize n (Fin 0) (hw_commands_positions s),
           hw_commands_velocities := resize n (Fin 0) (hw_commands_velocities s),
           hw_commands_efforts := resize n (Fin 0) (hw_commands_efforts s),
           control_level := resize n VELOCITY (control_level s)\<rparr>)"

text \<open>Two adapters with the same joints, the same vector lengths and the same pointer.\<close>

definition same_shape :: "hw \<Rightarrow> hw \<Rightarrow> bool" where
  "same_shape s s' \<longleftrightarrow>
     info s' = info s \<and> odrive s' = odrive s \<and>
     length (axis s') = length (axis s) \<and> length (KV s') = length (KV s) \<and>
     length (hw_commands_positions s') = length (hw_commands_positions s) \<and>
     length (hw_commands_velocities s') = length (hw_commands_velocities s) \<and>
     length (hw_commands_efforts s') = length (hw_commands_efforts s) \<and>
     length (hw_positions s') = length (hw_positions s) \<and>
     length (hw_velocities s') = length (hw_velocities s) \<and>
     length (hw_efforts s') = length (hw_efforts s) \<and>
     length (control_level s') = length (control_level s)"

text \<open>An adapter that is ready and has \<open>n\<close> joints.\<close>

definition fit :: "nat \<Rightarrow> hw \<Rightarrow> bool" where
  "fit n s \<longleftrightarrow> ready s \<and> length (joints (info s)) = n"

section \<open>Examples\<close>

text \<open>A register map and the interface names, for the examples.\<close>

definition rm0 :: endpoints where
  "rm0 = \<lparr>AXIS__REQUESTED_STATE = 71,
          AXIS__MOTOR__CURRENT_CONTROL__IQ_MEASURED = 170,
          AXIS__ENCODER__VEL_ESTIMATE = 225,
          AXIS__ENCODER__POS_ESTIMATE = 222,
          AXIS__MOTOR__CURRENT_CONTROL__IQ_SETPOINT = 169,
          AXIS__CONTROLLER__INPUT_VEL = 197,
          AXIS__CONTROLLER__INPUT_POS = 196,
          per_axis_offset = 230\<rparr>"

definition hif0 :: hw_if where
  "hif0 = \<lparr>HW_IF_POSITION = ''position'', HW_IF_VELOCITY = ''velocity'',
           HW_IF_EFFORT = ''effort''\<rparr>"

definition joint0 :: "string \<Rightarrow> (string \<rightharpoonup> string) \<Rightarrow> ComponentInfo" where
  "joint0 nm ps =
     \<lparr>name = nm,
      command_interfaces = [''position'', ''velocity'', ''effort''],
      state_interfaces = [''position'', ''velocity'', ''effort''],
      parameters = ps\<rparr>"

text \<open>
  A device that answers every request with success and reads 1 everywhere, and one whose
  answer to the operation number \<open>n\<close> (counted from 0) is the error -4.
\<close>

definition dev_ok :: device where
  "dev_ok = \<lparr>dev_init = (\<lambda>h. 0), dev_read = (\<lambda>h ep. (0, Fin 1)), dev_write = (\<lambda>h ep v. 0)\<rparr>"

definition dev_fail_at :: "nat \<Rightarrow> device" where
  "dev_fail_at n =
     \<lparr>dev_init = (\<lambda>h. if length h = n then - 4 else 0),
      dev_read = (\<lambda>h ep. (if length h = n then - 4 else 0, Fin 1)),
      dev_write = (\<lambda>h ep v. if length h = n then - 4 else 0)\<rparr>"

text \<open>
  An adapter set up by hand, with one entry for each joint in every vector: the joints on the
  axes 0, 1, ... in this order, every \<open>KV\<close> equal to 100, the control levels \<open>ms\<close> and the
  commands 1 (position), 2 (velocity) and 3 (effort).
\<close>

definition bench :: "integration_level_t list \<Rightarrow> hw" where
  "bench ms =
     \<lparr>info = \<lparr>joints = map (\<lambda>i. joint0 ''j'' Map.empty) [0..<length ms]\<rparr>,
      status = CONFIGURED, odrive = True, axis_requested_state = 0,
      axis = map of_nat [0..<length ms], KV = replicate (length ms) 100,
      hw_commands_positions = replicate (length ms) (Fin 1),
      hw_commands_velocities = replicate (length ms) (Fin 2),
      hw_commands_efforts = replicate (length ms) (Fin 3),
      hw_positions = replicate (length ms) NaN,
      hw_velocities = replicate (length ms) NaN,
      hw_efforts = replicate (length ms) NaN,
      control_level = ms, usb = [], rosout = []\<rparr>"


text \<open>
  Descriptions of hardware: two good joints; a second joint without \<open>axis\<close>; a joint whose
  \<open>KV\<close> is no number; a second joint with two command interfaces only.
\<close>

definition params :: "string \<Rightarrow> string \<Rightarrow> (string \<rightharpoonup> string)" where
  "params a k = [''axis'' \<mapsto> a, ''KV'' \<mapsto> k]"

definition fresh0 :: hw where
  "fresh0 = fresh \<lparr>joints = []\<rparr> UNKNOWN 0 [] []"

definition two_joints :: HardwareInfo where
  "two_joints =
     \<lparr>joints = [joint0 ''a'' (params ''0'' ''100''), joint0 ''b'' (params ''1'' ''150'')]\<rparr>"

definition no_axis :: HardwareInfo where
  "no_axis = \<lparr>joints = [joint0 ''a'' (params ''0'' ''100''), joint0 ''b'' [''KV'' \<mapsto> ''150'']]\<rparr>"

definition bad_KV :: HardwareInfo where
  "bad_KV = \<lparr>joints = [joint0 ''a'' (params ''0'' ''abc'')]\<rparr>"

definition second_short :: HardwareInfo where
  "second_short =
     \<lparr>joints =
        [joint0 ''a'' (params ''0'' ''100''),
         (joint0 ''b'' (params ''1'' ''150''))\<lparr>command_interfaces := [''position'', ''velocity'']\<rparr>,
         joint0 ''c'' (params ''2'' ''100'')]\<rparr>"

text \<open>The adapter that \<open>configure\<close> makes of the two good joints.\<close>

definition configured2 :: hw where
  "configured2 =
     \<lparr>info = two_joints, status = CONFIGURED, odrive = True, axis_requested_state = 0,
      axis = [0, 1], KV = [100, 150],
      hw_commands_positions = [Fin 0, Fin 0], hw_commands_velocities = [Fin 0, Fin 0],
      hw_commands_efforts = [Fin 0, Fin 0],
      hw_positions = [NaN, NaN], hw_velocities = [NaN, NaN], hw_efforts = [NaN, NaN],
      control_level = [VELOCITY, VELOCITY], usb = [UsbInit], rosout = []\<rparr>"

section \<open>Loops\<close>

text \<open>
  A loop that goes through the states \<open>S 0\<close>, \<open>S 1\<close>, ... ends in the last of them; one
  whose body leaves at the element number \<open>f\<close> ends as that body does.
\<close>

lemma for_each_run:
  "(\<And>k. k < length xs \<Longrightarrow> body (xs ! k) (S k) = (None, S (Suc k)))
   \<Longrightarrow> for_each body xs (S 0) = (None, S (length xs))"
proof (induction xs arbitrary: S)
  case Nil
  then show ?case by simp
next
  case (Cons x xs)
  have first: "body x (S 0) = (None, S (Suc 0))"
    using Cons.prems [of 0] by simp
  have "for_each body xs ((S \<circ> Suc) 0) = (None, (S \<circ> Suc) (length xs))"
  proof (rule Cons.IH)
    fix k assume "k < length xs"
    then show "body (xs ! k) ((S \<circ> Suc) k) = (None, (S \<circ> Suc) (Suc k))"
      using Cons.prems [of "Suc k"] by simp
  qed
  with first show ?case by simp
qed

lemma for_each_stop:
  "f < length xs \<Longrightarrow> (\<And>k. k < f \<Longrightarrow> body (xs ! k) (S k) = (None, S (Suc k)))
   \<Longrightarrow> body (xs ! f) (S f) = (Some r, s')
   \<Longrightarrow> for_each body xs (S 0) = (Some r, s')"
proof (induction xs arbitrary: S f)
  case Nil
  then show ?case by simp
next
  case (Cons x xs)
  show ?case
  proof (cases f)
    case 0
    with Cons.prems(3) show ?thesis by simp
  next
    case (Suc g)
    have first: "body x (S 0) = (None, S (Suc 0))"
      using Cons.prems(2) [of 0] Suc by simp
    have "for_each body xs ((S \<circ> Suc) 0) = (Some r, s')"
    proof (rule Cons.IH [of g])
      show "g < length xs" using Cons.prems(1) Suc by simp
    next
      fix k assume "k < g"
      then show "body (xs ! k) ((S \<circ> Suc) k) = (None, (S \<circ> Suc) (Suc k))"
        using Cons.prems(2) [of "Suc k"] Suc by simp
    next
      show "body (xs ! g) ((S \<circ> Suc) g) = (Some r, s')"
        using Cons.prems(3) Suc by simp
    qed
    with first show ?thesis by simp
  qed
qed

lemma take_map_upt: "k \<le> n \<Longrightarrow> take k (map f [0..<n]) = map f [0..<k]"
  by (simp add: take_map)

lemma upt_2: "[0..<2] = [0, Suc 0]"
  by (simp add: numeral_2_eq_2)

lemma ready_bench: "ready (bench ms)"
  by (simp add: ready_def sized_def bench_def)

lemma upt_3: "[0..<3] = [0, Suc 0, Suc (Suc 0)]"
  by (simp add: numeral_3_eq_3)

section \<open>The conversions in closed form\<close>

text \<open>Dividing by 2 and then by \<open>M_PI\<close> divides by \<open>2\<pi>\<close>; likewise for the products.\<close>

lemma half_turn_eq: "ddiv (ddiv x (Fin 2)) M_PI = ddiv x (Fin (2 * pi))"
  by (cases x) (simp_all add: M_PI_def inf_of_sign_def)

lemma rad_to_turns_eq: "rad_to_turns x = to_float (ddiv x (Fin (2 * pi)))"
  by (simp add: rad_to_turns_def half_turn_eq)


section \<open>The narrowing to float\<close>




lemma ulp_down_one: "1 \<le> m \<Longrightarrow> ulp_down n m = 1 / 2 ^ 23"
  by (cases n) simp_all

lemma ulp_down_eq:
  "1 \<le> m * 2 ^ k \<Longrightarrow> m * 2 ^ k < 2 \<Longrightarrow> k \<le> n \<Longrightarrow> ulp_down n m = 1 / 2 ^ 23 / 2 ^ k"
proof (induction k arbitrary: n m)
  case 0
  then show ?case by (simp add: ulp_down_one)
next
  case (Suc k)
  obtain n' where n: "n = Suc n'" using Suc.prems(3) by (cases n) simp_all
  show ?case
  proof (cases "1 \<le> m")
    case True
    have "(1::real) \<le> 2 ^ k" by simp
    with True have "1 * 1 \<le> m * 2 ^ k" by (intro mult_mono) simp_all
    with Suc.prems(2) show ?thesis by simp
  next
    case False
    have "ulp_down n' (2 * m) = 1 / 2 ^ 23 / 2 ^ k"
      by (rule Suc.IH) (use Suc.prems n in \<open>simp_all add: mult.assoc mult.left_commute\<close>)
    with False n show ?thesis by simp
  qed
qed














section \<open>start and stop: one request for each joint\<close>

lemma request_step:
  assumes "odrive s" "k < length (axis s)" "k < n"
  shows "request_state_joint dev rm k (requesting rm s v k) =
     (let c = result_at dev (usb s) (map (request_op rm s v) [0..<n]) k
      in if c \<noteq> 0
         then (Some (Returned ERROR),
               (requesting rm s v (Suc k))\<lparr>rosout := rosout s @ [ErrLibusb c]\<rparr>)
         else (None, requesting rm s v (Suc k)))"
  using assms
  by (simp add: request_state_joint_def requesting_def usb_write_def Let_def log_msg_def
      result_at_def request_op_def take_map_upt)

lemma request_all:
  assumes "odrive s" "length (axis s) = n"
    and "\<And>k. k < n \<Longrightarrow> result_at dev (usb s) (map (request_op rm s v) [0..<n]) k = 0"
  shows "for_each (request_state_joint dev rm) [0..<n] (s\<lparr>axis_requested_state := v\<rparr>) =
    (None, requesting rm s v n)"
proof -
  have "for_each (request_state_joint dev rm) [0..<n] (requesting rm s v 0) =
      (None, requesting rm s v (length [0..<n]))"
    by (rule for_each_run) (use assms in \<open>simp add: request_step [where n = n]\<close>)
  then show ?thesis by (simp add: requesting_def)
qed

lemma request_abort:
  assumes "odrive s" "length (axis s) = n" "f < n"
    and "\<And>k. k < f \<Longrightarrow> result_at dev (usb s) (map (request_op rm s v) [0..<n]) k = 0"
    and "result_at dev (usb s) (map (request_op rm s v) [0..<n]) f \<noteq> 0"
  shows "for_each (request_state_joint dev rm) [0..<n] (s\<lparr>axis_requested_state := v\<rparr>) =
    (Some (Returned ERROR),
     (requesting rm s v (Suc f))\<lparr>rosout := rosout s @
        [ErrLibusb (result_at dev (usb s) (map (request_op rm s v) [0..<n]) f)]\<rparr>)"
proof -
  have "for_each (request_state_joint dev rm) [0..<n] (requesting rm s v 0) =
    (Some (Returned ERROR),
     (requesting rm s v (Suc f))\<lparr>rosout := rosout s @
        [ErrLibusb (result_at dev (usb s) (map (request_op rm s v) [0..<n]) f)]\<rparr>)"
    by (rule for_each_stop [where f = f])
       (use assms in \<open>simp_all add: request_step [where n = n]\<close>)
  then show ?thesis by (simp add: requesting_def)
qed

text \<open>
  Claim C7. \<open>start\<close> issues one requested-state write for each configured joint, in the
  order of the joints, with the value 8 (closed-loop control) at the address
  \<open>AXIS__REQUESTED_STATE + per_axis_offset * axis[i]\<close>, and \<open>stop\<close> does the same with the
  value 1 (idle). When every write succeeds the call returns \<open>OK\<close>; at the first write that
  fails it returns \<open>ERROR\<close>, the error is logged, and the writes issued so far are all that
  was sent: nothing is rolled back.
\<close>

theorem start_stop_requests:
  fixes dev :: device and rm :: endpoints and s :: hw
  defines "n \<equiv> length (joints (info s))"
  defines "closed_loop \<equiv> map (request_op rm s 8) [0..<n]"
  defines "idle \<equiv> map (request_op rm s 1) [0..<n]"
  assumes "ready s"
  shows
    "((\<forall>k<n. result_at dev (usb s) closed_loop k = 0) \<longrightarrow>
        start dev rm s =
          (Returned OK,
           s\<lparr>axis_requested_state := 8, status := STARTED, usb := usb s @ closed_loop\<rparr>)) \<and>
     (\<forall>f<n. (\<forall>k<f. result_at dev (usb s) closed_loop k = 0) \<and>
            result_at dev (usb s) closed_loop f \<noteq> 0 \<longrightarrow>
        start dev rm s =
          (Returned ERROR,
           s\<lparr>axis_requested_state := 8, usb := usb s @ take (Suc f) closed_loop,
             rosout := rosout s @ [ErrLibusb (result_at dev (usb s) closed_loop f)]\<rparr>)) \<and>
     ((\<forall>k<n. result_at dev (usb s) idle k = 0) \<longrightarrow>
        stop dev rm s =
          (Returned OK, s\<lparr>axis_requested_state := 1, status := STOPPED, usb := usb s @ idle\<rparr>)) \<and>
     (\<forall>f<n. (\<forall>k<f. result_at dev (usb s) idle k = 0) \<and>
            result_at dev (usb s) idle f \<noteq> 0 \<longrightarrow>
        stop dev rm s =
          (Returned ERROR,
           s\<lparr>axis_requested_state := 1, usb := usb s @ take (Suc f) idle,
             rosout := rosout s @ [ErrLibusb (result_at dev (usb s) idle f)]\<rparr>))"
proof -
  have od: "odrive s" and len: "length (axis s) = n"
    using assms by (simp_all add: ready_def sized_def Let_def)
  have a: "(\<forall>k<n. result_at dev (usb s) closed_loop k = 0) \<longrightarrow>
        start dev rm s =
          (Returned OK,
           s\<lparr>axis_requested_state := 8, status := STARTED, usb := usb s @ closed_loop\<rparr>)"
    using request_all [OF od len, of dev rm 8]
    by (simp add: start_def AXIS_STATE_CLOSED_LOOP_CONTROL_def requesting_def n_def
        closed_loop_def)
  have b: "\<forall>f<n. (\<forall>k<f. result_at dev (usb s) closed_loop k = 0) \<and>
            result_at dev (usb s) closed_loop f \<noteq> 0 \<longrightarrow>
        start dev rm s =
          (Returned ERROR,
           s\<lparr>axis_requested_state := 8, usb := usb s @ take (Suc f) closed_loop,
             rosout := rosout s @ [ErrLibusb (result_at dev (usb s) closed_loop f)]\<rparr>)"
    using request_abort [OF od len, of _ dev rm 8]
    by (simp add: start_def AXIS_STATE_CLOSED_LOOP_CONTROL_def requesting_def n_def
        closed_loop_def take_map_upt)
  have c: "(\<forall>k<n. result_at dev (usb s) idle k = 0) \<longrightarrow>
        stop dev rm s =
          (Returned OK, s\<lparr>axis_requested_state := 1, status := STOPPED, usb := usb s @ idle\<rparr>)"
    using request_all [OF od len, of dev rm 1]
    by (simp add: stop_def AXIS_STATE_IDLE_def requesting_def n_def idle_def)
  have d: "\<forall>f<n. (\<forall>k<f. result_at dev (usb s) idle k = 0) \<and>
            result_at dev (usb s) idle f \<noteq> 0 \<longrightarrow>
        stop dev rm s =
          (Returned ERROR,
           s\<lparr>axis_requested_state := 1, usb := usb s @ take (Suc f) idle,
             rosout := rosout s @ [ErrLibusb (result_at dev (usb s) idle f)]\<rparr>)"
    using request_abort [OF od len, of _ dev rm 1]
    by (simp add: stop_def AXIS_STATE_IDLE_def requesting_def n_def idle_def take_map_upt)
  from a b c d show ?thesis by blast
qed

text \<open>
  With two joints: two writes of 8, two writes of 1; a device that fails on the first write
  gets one write, one that fails on the second gets two.
\<close>

theorem start_stop_requests_witness:
  "ready (bench [VELOCITY, VELOCITY]) \<and>
   start dev_ok rm0 (bench [VELOCITY, VELOCITY]) =
     (Returned OK,
      (bench [VELOCITY, VELOCITY])\<lparr>axis_requested_state := 8, status := STARTED,
         usb := [UsbWrite 71 (Int32 8), UsbWrite 301 (Int32 8)]\<rparr>) \<and>
   stop dev_ok rm0 (bench [VELOCITY, VELOCITY]) =
     (Returned OK,
      (bench [VELOCITY, VELOCITY])\<lparr>axis_requested_state := 1, status := STOPPED,
         usb := [UsbWrite 71 (Int32 1), UsbWrite 301 (Int32 1)]\<rparr>) \<and>
   start (dev_fail_at 0) rm0 (bench [VELOCITY, VELOCITY]) =
     (Returned ERROR,
      (bench [VELOCITY, VELOCITY])\<lparr>axis_requested_state := 8,
         usb := [UsbWrite 71 (Int32 8)], rosout := [ErrLibusb (- 4)]\<rparr>) \<and>
   stop (dev_fail_at 1) rm0 (bench [VELOCITY, VELOCITY]) =
     (Returned ERROR,
      (bench [VELOCITY, VELOCITY])\<lparr>axis_requested_state := 1,
         usb := [UsbWrite 71 (Int32 1), UsbWrite 301 (Int32 1)], rosout := [ErrLibusb (- 4)]\<rparr>)"
proof -
  have r: "ready (bench [VELOCITY, VELOCITY])" by (rule ready_bench)
  have n: "length (joints (info (bench [VELOCITY, VELOCITY]))) = 2"
    and u: "usb (bench [VELOCITY, VELOCITY]) = []"
    and ro: "rosout (bench [VELOCITY, VELOCITY]) = []"
    and ops: "\<And>v. map (request_op rm0 (bench [VELOCITY, VELOCITY]) v) [0..<2] =
      [UsbWrite 71 (Int32 v), UsbWrite 301 (Int32 v)]"
    by (simp_all add: bench_def upt_2 request_op_def rm0_def)
  have ok: "\<And>ops k. result_at dev_ok [] ops k = 0"
    subgoal for ops k by (cases "ops ! k") (simp_all add: result_at_def dev_ok_def)
    done
  have f0: "\<And>v. result_at (dev_fail_at 0) [] [UsbWrite 71 (Int32 v), UsbWrite 301 (Int32 v)] 0 = - 4"
    and f1: "\<And>v. result_at (dev_fail_at (Suc 0)) [] [UsbWrite 71 (Int32 v), UsbWrite 301 (Int32 v)] 0 = 0"
    and f2: "\<And>v. result_at (dev_fail_at (Suc 0)) [] [UsbWrite 71 (Int32 v), UsbWrite 301 (Int32 v)] (Suc 0) = - 4"
    by (simp_all add: result_at_def dev_fail_at_def)
  note t = start_stop_requests [OF r]
  have 1: "start dev_ok rm0 (bench [VELOCITY, VELOCITY]) =
     (Returned OK,
      (bench [VELOCITY, VELOCITY])\<lparr>axis_requested_state := 8, status := STARTED,
         usb := [UsbWrite 71 (Int32 8), UsbWrite 301 (Int32 8)]\<rparr>)"
    using t [of dev_ok rm0] by (simp add: n u ops ok)
  have 2: "stop dev_ok rm0 (bench [VELOCITY, VELOCITY]) =
     (Returned OK,
      (bench [VELOCITY, VELOCITY])\<lparr>axis_requested_state := 1, status := STOPPED,
         usb := [UsbWrite 71 (Int32 1), UsbWrite 301 (Int32 1)]\<rparr>)"
    using t [of dev_ok rm0] by (simp add: n u ops ok)
  have 3: "start (dev_fail_at 0) rm0 (bench [VELOCITY, VELOCITY]) =
     (Returned ERROR,
      (bench [VELOCITY, VELOCITY])\<lparr>axis_requested_state := 8,
         usb := [UsbWrite 71 (Int32 8)], rosout := [ErrLibusb (- 4)]\<rparr>)"
    using t [of "dev_fail_at 0" rm0, THEN conjunct2, THEN conjunct1, rule_format, of 0]
    by (simp add: n u ro ops f0)
  have 4: "stop (dev_fail_at 1) rm0 (bench [VELOCITY, VELOCITY]) =
     (Returned ERROR,
      (bench [VELOCITY, VELOCITY])\<lparr>axis_requested_state := 1,
         usb := [UsbWrite 71 (Int32 1), UsbWrite 301 (Int32 1)], rosout := [ErrLibusb (- 4)]\<rparr>)"
    using t [of "dev_fail_at 1" rm0, THEN conjunct2, THEN conjunct2, THEN conjunct2,
        rule_format, of 1]
    by (simp add: n u ro ops f1 f2)
  from r 1 2 3 4 show ?thesis by blast
qed

section \<open>read: three reads for each joint\<close>

















section \<open>write: the dispatch on the control level\<close>

lemma writes_upto_Suc: "writes_upto rm s (Suc k) = writes_upto rm s k @ write_ops rm s k"
  by (simp add: writes_upto_def)

lemma write_step:
  assumes "ready s" "k < length (joints (info s))"
  shows "write_joint dev rm k (writing rm s k) =
     (if control_level s ! k = UNDEFINED
      then (Some (Returned OK), (writing rm s k)\<lparr>rosout := rosout s @ [InfoNothingUsing]\<rparr>)
      else if write_result dev rm s k \<noteq> 0
      then (Some (Returned ERROR),
            (writing rm s (Suc k))\<lparr>rosout := rosout s @ [ErrLibusb (write_result dev rm s k)]\<rparr>)
      else (None, writing rm s (Suc k)))"
proof -
  have len: "k < length (control_level s)" "k < length (axis s)" "k < length (KV s)"
    "k < length (hw_commands_efforts s)" "k < length (hw_commands_velocities s)"
    "k < length (hw_commands_positions s)" "odrive s"
    using assms by (simp_all add: ready_def sized_def Let_def)
  show ?thesis
    using len
    by (cases "control_level s ! k")
       (simp_all add: write_joint_def writing_def writes_upto_Suc write_ops_def write_result_def
          usb_write_def log_msg_def Let_def effort_to_current_def rad_to_turns_eq)
qed

lemma write_all:
  assumes "ready s"
    and "\<And>j. j < length (joints (info s)) \<Longrightarrow>
           control_level s ! j \<noteq> UNDEFINED \<and> write_result dev rm s j = 0"
  shows "write dev rm s = (Returned OK, writing rm s (length (joints (info s))))"
proof -
  have "for_each (write_joint dev rm) [0..<length (joints (info s))] (writing rm s 0) =
      (None, writing rm s (length [0..<length (joints (info s))]))"
    by (rule for_each_run) (use assms in \<open>simp add: write_step\<close>)
  then show ?thesis by (simp add: write_def writing_def writes_upto_def)
qed

lemma write_at_undefined:
  assumes "ready s" "f < length (joints (info s))"
    and "\<And>j. j < f \<Longrightarrow> control_level s ! j \<noteq> UNDEFINED \<and> write_result dev rm s j = 0"
    and "control_level s ! f = UNDEFINED"
  shows "write dev rm s =
     (Returned OK, (writing rm s f)\<lparr>rosout := rosout s @ [InfoNothingUsing]\<rparr>)"
proof -
  have "for_each (write_joint dev rm) [0..<length (joints (info s))] (writing rm s 0) =
      (Some (Returned OK), (writing rm s f)\<lparr>rosout := rosout s @ [InfoNothingUsing]\<rparr>)"
    by (rule for_each_stop [where f = f]) (use assms in \<open>simp_all add: write_step\<close>)
  then show ?thesis by (simp add: write_def writing_def writes_upto_def)
qed

lemma write_abort:
  assumes "ready s" "f < length (joints (info s))"
    and "\<And>j. j < f \<Longrightarrow> control_level s ! j \<noteq> UNDEFINED \<and> write_result dev rm s j = 0"
    and "control_level s ! f \<noteq> UNDEFINED" "write_result dev rm s f \<noteq> 0"
  shows "write dev rm s =
     (Returned ERROR,
      (writing rm s (Suc f))\<lparr>rosout := rosout s @ [ErrLibusb (write_result dev rm s f)]\<rparr>)"
proof -
  have "for_each (write_joint dev rm) [0..<length (joints (info s))] (writing rm s 0) =
      (Some (Returned ERROR),
       (writing rm s (Suc f))\<lparr>rosout := rosout s @ [ErrLibusb (write_result dev rm s f)]\<rparr>)"
    by (rule for_each_stop [where f = f]) (use assms in \<open>simp_all add: write_step\<close>)
  then show ?thesis by (simp add: write_def writing_def writes_upto_def)
qed

text \<open>Where the loop of \<open>write\<close> ends: the trace is the writes of the first \<open>k\<close> joints.\<close>

lemma write_trace:
  assumes "ready s"
  shows "\<exists>k\<le>length (joints (info s)).
      usb (snd (write dev rm s)) = usb s @ writes_upto rm s k \<and>
      (\<forall>j<k. control_level s ! j \<noteq> UNDEFINED) \<and>
      (\<forall>j. Suc j < k \<longrightarrow> write_result dev rm s j = 0) \<and>
      (k < length (joints (info s)) \<longrightarrow>
         control_level s ! k = UNDEFINED \<or> (0 < k \<and> write_result dev rm s (k - 1) \<noteq> 0))"
proof (cases "\<exists>j<length (joints (info s)). stops dev rm s j")
  case False
  then have "write dev rm s = (Returned OK, writing rm s (length (joints (info s))))"
    by (intro write_all [OF assms]) (simp add: stops_def)
  then show ?thesis
    using False by (intro exI [of _ "length (joints (info s))"]) (auto simp: writing_def stops_def)
next
  case True
  define f where "f = (LEAST j. j < length (joints (info s)) \<and> stops dev rm s j)"
  have f: "f < length (joints (info s))" "stops dev rm s f"
    using LeastI_ex [OF True] by (simp_all add: f_def)
  have before: "control_level s ! j \<noteq> UNDEFINED \<and> write_result dev rm s j = 0" if "j < f" for j
  proof -
    have "\<not> (j < length (joints (info s)) \<and> stops dev rm s j)"
      using not_less_Least that unfolding f_def by blast
    with that f(1) show ?thesis by (simp add: stops_def)
  qed
  show ?thesis
  proof (cases "control_level s ! f = UNDEFINED")
    case True
    have "write dev rm s =
        (Returned OK, (writing rm s f)\<lparr>rosout := rosout s @ [InfoNothingUsing]\<rparr>)"
      by (rule write_at_undefined [OF assms f(1) before True])
    then show ?thesis
      using f(1) before True by (intro exI [of _ f]) (auto simp: writing_def)
  next
    case False
    with f(2) have bad: "write_result dev rm s f \<noteq> 0" by (simp add: stops_def)
    have "write dev rm s =
        (Returned ERROR,
         (writing rm s (Suc f))\<lparr>rosout := rosout s @ [ErrLibusb (write_result dev rm s f)]\<rparr>)"
      by (rule write_abort [OF assms f(1) before False bad])
    then show ?thesis
      using f(1) before False bad
      by (intro exI [of _ "Suc f"]) (auto simp: writing_def less_Suc_eq)
  qed
qed

text \<open>
  Claim C1. When joint \<open>i\<close> has the control level \<open>UNDEFINED\<close>, every transport write that
  \<open>write\<close> issues is the write of a joint before \<open>i\<close>: the trace grows by the writes of the
  first \<open>k\<close> joints for some \<open>k \<le> i\<close>, so nothing is written for joint \<open>i\<close> or for a joint
  after it. When the loop gets to joint \<open>i\<close> (the joints before it have a defined level and their
  writes succeed), the call logs the notice and returns \<open>OK\<close> there, after exactly the writes of
  the joints before \<open>i\<close>.
\<close>

theorem write_undefined_short_circuit:
  assumes "ready s" and "i < length (joints (info s))" and "control_level s ! i = UNDEFINED"
  shows "(\<exists>k\<le>i. usb (snd (write dev rm s)) = usb s @ writes_upto rm s k) \<and>
     ((\<forall>j<i. control_level s ! j \<noteq> UNDEFINED \<and> write_result dev rm s j = 0) \<longrightarrow>
        write dev rm s =
          (Returned OK,
           s\<lparr>usb := usb s @ writes_upto rm s i, rosout := rosout s @ [InfoNothingUsing]\<rparr>))"
proof
  obtain k where k: "usb (snd (write dev rm s)) = usb s @ writes_upto rm s k"
    "\<forall>j<k. control_level s ! j \<noteq> UNDEFINED"
    using write_trace [OF assms(1), of dev rm] by blast
  from k(2) assms(3) have "k \<le> i" by (meson not_le)
  with k(1) show "\<exists>k\<le>i. usb (snd (write dev rm s)) = usb s @ writes_upto rm s k" by blast
next
  show "(\<forall>j<i. control_level s ! j \<noteq> UNDEFINED \<and> write_result dev rm s j = 0) \<longrightarrow>
        write dev rm s =
          (Returned OK,
           s\<lparr>usb := usb s @ writes_upto rm s i, rosout := rosout s @ [InfoNothingUsing]\<rparr>)"
    using write_at_undefined [OF assms(1,2) _ assms(3), of dev rm] by (simp add: writing_def)
qed

text \<open>
  Three joints, the second one undefined: one write (the velocity 2 of the first joint, as
  \<open>2 / 2\<pi>\<close> turns per second, narrowed to \<open>float\<close>), the notice, and \<open>OK\<close>; nothing for the
  third joint.
\<close>

theorem write_undefined_short_circuit_witness:
  "ready (bench [VELOCITY, UNDEFINED, POSITION]) \<and>
   control_level (bench [VELOCITY, UNDEFINED, POSITION]) ! 1 = UNDEFINED \<and>
   write dev_ok rm0 (bench [VELOCITY, UNDEFINED, POSITION]) =
     (Returned OK,
      (bench [VELOCITY, UNDEFINED, POSITION])\<lparr>usb := [UsbWrite 197 (Float32 (to_float (Fin (1 / pi))))],
         rosout := [InfoNothingUsing]\<rparr>)"
proof -
  let ?B = "bench [VELOCITY, UNDEFINED, POSITION]"
  have r: "ready ?B" by (rule ready_bench)
  have n: "1 < length (joints (info ?B))" and u: "control_level ?B ! 1 = UNDEFINED"
    by (simp_all add: bench_def)
  have w: "writes_upto rm0 ?B 1 = [UsbWrite 197 (Float32 (to_float (Fin (1 / pi))))]"
    by (simp add: writes_upto_def write_ops_def bench_def rm0_def)
  have ok: "\<forall>j<1. control_level ?B ! j \<noteq> UNDEFINED \<and> write_result dev_ok rm0 ?B j = 0"
    by (simp add: bench_def write_result_def write_ops_def dev_ok_def)
  have "write dev_ok rm0 ?B =
     (Returned OK, ?B\<lparr>usb := [UsbWrite 197 (Float32 (to_float (Fin (1 / pi))))], rosout := [InfoNothingUsing]\<rparr>)"
    using write_undefined_short_circuit [OF r n u, of dev_ok rm0, THEN conjunct2] ok w
    by (simp add: bench_def)
  with r u show ?thesis by blast
qed





subsection \<open>The command buffers that write looks at\<close>

lemma write_joint_frame:
  "control_level (snd (write_joint dev rm i s)) = control_level s \<and>
   hw_commands_positions (snd (write_joint dev rm i s)) = hw_commands_positions s \<and>
   hw_commands_velocities (snd (write_joint dev rm i s)) = hw_commands_velocities s \<and>
   hw_commands_efforts (snd (write_joint dev rm i s)) = hw_commands_efforts s"
  by (cases "control_level s ! i")
     (simp_all add: write_joint_def usb_write_def log_msg_def Let_def)

lemma write_joint_commands:
  assumes "length p = length (hw_commands_positions s)"
    and "length v = length (hw_commands_velocities s)"
    and "length e = length (hw_commands_efforts s)"
    and "control_level s ! i = POSITION \<longrightarrow> p ! i = hw_commands_positions s ! i"
    and "control_level s ! i = VELOCITY \<longrightarrow> v ! i = hw_commands_velocities s ! i"
    and "control_level s ! i = EFFORT \<longrightarrow> e ! i = hw_commands_efforts s ! i"
  shows "write_joint dev rm i (with_commands p v e s) =
     (fst (write_joint dev rm i s), with_commands p v e (snd (write_joint dev rm i s)))"
  using assms
  by (cases "control_level s ! i")
     (simp_all add: write_joint_def with_commands_def usb_write_def log_msg_def Let_def)

lemma for_each_write_commands:
  assumes "length p = length (hw_commands_positions s)"
    and "length v = length (hw_commands_velocities s)"
    and "length e = length (hw_commands_efforts s)"
    and "\<forall>i\<in>set xs.
       (control_level s ! i = POSITION \<longrightarrow> p ! i = hw_commands_positions s ! i) \<and>
       (control_level s ! i = VELOCITY \<longrightarrow> v ! i = hw_commands_velocities s ! i) \<and>
       (control_level s ! i = EFFORT \<longrightarrow> e ! i = hw_commands_efforts s ! i)"
  shows "for_each (write_joint dev rm) xs (with_commands p v e s) =
     (fst (for_each (write_joint dev rm) xs s),
      with_commands p v e (snd (for_each (write_joint dev rm) xs s)))"
  using assms
proof (induction xs arbitrary: s)
  case Nil
  then show ?case by simp
next
  case (Cons x xs)
  obtain r s' where step: "write_joint dev rm x s = (r, s')" by (cases "write_joint dev rm x s")
  have step': "write_joint dev rm x (with_commands p v e s) = (r, with_commands p v e s')"
    using write_joint_commands [of p s v e x dev rm] Cons.prems step by simp
  have frame: "control_level s' = control_level s"
    "hw_commands_positions s' = hw_commands_positions s"
    "hw_commands_velocities s' = hw_commands_velocities s"
    "hw_commands_efforts s' = hw_commands_efforts s"
    using write_joint_frame [of dev rm x s] step by simp_all
  show ?case
  proof (cases r)
    case None
    have "for_each (write_joint dev rm) xs (with_commands p v e s') =
     (fst (for_each (write_joint dev rm) xs s'),
      with_commands p v e (snd (for_each (write_joint dev rm) xs s')))"
      by (rule Cons.IH) (use Cons.prems frame in simp_all)
    with None step step' show ?thesis by simp
  next
    case (Some a)
    with step step' show ?thesis by simp
  qed
qed

text \<open>
  Claim C9. Two runs of \<open>write\<close> on adapters that differ only in their command buffers, and
  there only in entries that do not belong to the control level of their joint, return the
  same result and issue the same transport operations; the final states differ in the
  command buffers only.
\<close>

theorem write_consults_matching_buffer:
  assumes "length p = length (hw_commands_positions s)"
    and "length v = length (hw_commands_velocities s)"
    and "length e = length (hw_commands_efforts s)"
    and "\<forall>i<length (joints (info s)).
       (control_level s ! i = POSITION \<longrightarrow> p ! i = hw_commands_positions s ! i) \<and>
       (control_level s ! i = VELOCITY \<longrightarrow> v ! i = hw_commands_velocities s ! i) \<and>
       (control_level s ! i = EFFORT \<longrightarrow> e ! i = hw_commands_efforts s ! i)"
  shows "fst (write dev rm (with_commands p v e s)) = fst (write dev rm s) \<and>
     usb (snd (write dev rm (with_commands p v e s))) = usb (snd (write dev rm s)) \<and>
     snd (write dev rm (with_commands p v e s)) = with_commands p v e (snd (write dev rm s))"
proof -
  have n: "length (joints (info (with_commands p v e s))) = length (joints (info s))"
    by (simp add: with_commands_def)
  have "for_each (write_joint dev rm) [0..<length (joints (info s))] (with_commands p v e s) =
     (fst (for_each (write_joint dev rm) [0..<length (joints (info s))] s),
      with_commands p v e (snd (for_each (write_joint dev rm) [0..<length (joints (info s))] s)))"
    by (rule for_each_write_commands) (use assms in simp_all)
  then show ?thesis
    by (cases "for_each (write_joint dev rm) [0..<length (joints (info s))] s")
       (auto simp: write_def n with_commands_def split: option.splits)
qed

text \<open>
  An effort joint and a velocity joint: both positions, the velocity of the first joint and
  the effort of the second one are changed, and nothing shows.
\<close>

theorem write_consults_matching_buffer_witness:
  "fst (write dev_ok rm0
          (with_commands [Fin 7, Fin 8] [Fin 9, Fin 2] [Fin 3, Fin 5] (bench [EFFORT, VELOCITY]))) =
     fst (write dev_ok rm0 (bench [EFFORT, VELOCITY])) \<and>
   usb (snd (write dev_ok rm0
          (with_commands [Fin 7, Fin 8] [Fin 9, Fin 2] [Fin 3, Fin 5] (bench [EFFORT, VELOCITY])))) =
     usb (snd (write dev_ok rm0 (bench [EFFORT, VELOCITY])))"
proof -
  let ?B = "bench [EFFORT, VELOCITY]"
  have l: "length [Fin 7, Fin 8] = length (hw_commands_positions ?B)"
    "length [Fin 9, Fin 2] = length (hw_commands_velocities ?B)"
    "length [Fin 3, Fin 5] = length (hw_commands_efforts ?B)"
    by (simp_all add: bench_def)
  have a: "\<forall>i<length (joints (info ?B)).
       (control_level ?B ! i = POSITION \<longrightarrow> [Fin 7, Fin 8] ! i = hw_commands_positions ?B ! i) \<and>
       (control_level ?B ! i = VELOCITY \<longrightarrow> [Fin 9, Fin 2] ! i = hw_commands_velocities ?B ! i) \<and>
       (control_level ?B ! i = EFFORT \<longrightarrow> [Fin 3, Fin 5] ! i = hw_commands_efforts ?B ! i)"
    by (simp add: bench_def less_Suc_eq numeral_2_eq_2)
  from write_consults_matching_buffer [OF l a, of dev_ok rm0] show ?thesis
    by blast
qed

section \<open>The conversions of write, undone by those of read\<close>










section \<open>configure\<close>

lemma for_each_append:
  "for_each body (xs @ ys) s =
     (case for_each body xs s of
        (None, s') \<Rightarrow> for_each body ys s'
      | (Some r, s') \<Rightarrow> (Some r, s'))"
  by (induction xs arbitrary: s) (auto split: prod.splits option.splits)

lemma configure_joint_cases:
  "configure_joint hif joint s =
     (if \<not> interfaces_ok hif joint
      then (Some (Returned ERROR), s\<lparr>rosout := rosout s @ [rejection hif joint]\<rparr>)
      else
        case stoi_at joint ''axis'' of
          Inl e \<Rightarrow> (Some (Threw e), s)
        | Inr a \<Rightarrow>
            (case stoi_at joint ''KV'' of
               Inl e \<Rightarrow> (Some (Threw e), s\<lparr>axis := axis s @ [a]\<rparr>)
             | Inr k \<Rightarrow> (None, s\<lparr>axis := axis s @ [a], KV := KV s @ [k]\<rparr>)))"
  by (auto simp: configure_joint_def interfaces_ok_def rejection_def log_msg_def Let_def
      split: sum.splits)

lemma configuring_Cons: "configuring (j # js) s = configuring js (configuring [j] s)"
  by (simp add: configuring_def)

lemma configure_joint_ok:
  "interfaces_ok hif joint \<Longrightarrow> parses joint \<Longrightarrow>
     configure_joint hif joint s = (None, configuring [joint] s)"
  by (simp add: configure_joint_cases parses_def configuring_def)

lemma configure_joint_None:
  "configure_joint hif joint s = (None, s') \<Longrightarrow> interfaces_ok hif joint \<and> parses joint"
  by (auto simp: configure_joint_cases parses_def parsed_def split: if_splits sum.splits)

lemma configure_loop_ok:
  "\<forall>j\<in>set js. interfaces_ok hif j \<and> parses j \<Longrightarrow>
     for_each (configure_joint hif) js s = (None, configuring js s)"
proof (induction js arbitrary: s)
  case Nil
  then show ?case by (simp add: configuring_def)
next
  case (Cons j js)
  then show ?case
    by (simp add: configure_joint_ok configuring_Cons [of j js])
qed

lemma configure_loop_None:
  "for_each (configure_joint hif) js s = (None, s') \<Longrightarrow>
     \<forall>j\<in>set js. interfaces_ok hif j \<and> parses j"
proof (induction js arbitrary: s)
  case Nil
  then show ?case by simp
next
  case (Cons j js)
  obtain r s1 where step: "configure_joint hif j s = (r, s1)"
    by (cases "configure_joint hif j s")
  with Cons.prems have r: "r = None" and rest: "for_each (configure_joint hif) js s1 = (None, s')"
    by (auto split: option.splits)
  from step r have "interfaces_ok hif j \<and> parses j"
    using configure_joint_None by blast
  with Cons.IH [OF rest] show ?case by simp
qed

lemma configure_loop_stop:
  assumes "b < length js" and "\<forall>j<b. interfaces_ok hif (js ! j) \<and> parses (js ! j)"
    and "configure_joint hif (js ! b) (configuring (take b js) s) = (Some r, s')"
  shows "for_each (configure_joint hif) js s = (Some r, s')"
proof -
  have js: "js = take b js @ js ! b # drop (Suc b) js"
    using assms(1) by (simp add: id_take_nth_drop [symmetric])
  have pre: "\<forall>j\<in>set (take b js). interfaces_ok hif j \<and> parses j"
    using assms(1,2) by (auto simp: in_set_conv_nth)
  have "for_each (configure_joint hif) (take b js @ js ! b # drop (Suc b) js) s = (Some r, s')"
    by (simp add: for_each_append configure_loop_ok [OF pre] assms(3))
  with js show ?thesis by simp
qed

lemma configure_alt:
  "configure hif dev cd info_arg s =
     (if fst cd \<noteq> OK then (Returned ERROR, s\<lparr>info := info_arg, status := snd cd\<rparr>)
      else
        case for_each (configure_joint hif) (joints info_arg) (allocated (snd cd) info_arg s) of
          (Some r, s') \<Rightarrow> (r, s')
        | (None, s2) \<Rightarrow>
            if dev_init dev (usb s2) \<noteq> 0
            then (Returned ERROR,
                  s2\<lparr>odrive := True, usb := usb s2 @ [UsbInit],
                     rosout := rosout s2 @ [ErrLibusb (dev_init dev (usb s2))]\<rparr>)
            else (Returned OK,
                  s2\<lparr>odrive := True, usb := usb s2 @ [UsbInit], status := CONFIGURED\<rparr>))"
  by (simp add: configure_def allocated_def Let_def log_msg_def split: prod.splits option.splits)

lemma resize_Nil: "resize n v [] = replicate n v"
  by (simp add: resize_def)

lemma configure_joint_not_OK: "fst (configure_joint hif joint s) \<noteq> Some (Returned OK)"
  by (simp add: configure_joint_cases split: sum.splits)

lemma configure_loop_not_OK: "fst (for_each (configure_joint hif) js s) \<noteq> Some (Returned OK)"
proof (induction js arbitrary: s)
  case Nil
  then show ?case by simp
next
  case (Cons j js)
  obtain r s1 where step: "configure_joint hif j s = (r, s1)"
    by (cases "configure_joint hif j s")
  with configure_joint_not_OK [of hif j s] have "r \<noteq> Some (Returned OK)" by simp
  with step Cons.IH [of s1] show ?case by (cases r) simp_all
qed

lemma configure_OK:
  assumes "configure hif dev cd info_arg s0 = (Returned OK, s)"
  shows "(\<forall>j\<in>set (joints info_arg). interfaces_ok hif j \<and> parses j) \<and>
     s = (configuring (joints info_arg) (allocated (snd cd) info_arg s0))
           \<lparr>odrive := True, usb := usb s0 @ [UsbInit], status := CONFIGURED\<rparr>"
proof -
  let ?s1 = "allocated (snd cd) info_arg s0"
  obtain r s2 where loop: "for_each (configure_joint hif) (joints info_arg) ?s1 = (r, s2)"
    by (cases "for_each (configure_joint hif) (joints info_arg) ?s1")
  have "r \<noteq> Some (Returned OK)"
    using configure_loop_not_OK [of hif "joints info_arg" ?s1] loop by simp
  with assms loop have r: "r = None"
    and s: "s = s2\<lparr>odrive := True, usb := usb s2 @ [UsbInit], status := CONFIGURED\<rparr>"
    by (auto simp: configure_alt split: if_splits option.splits)
  from loop r have all: "\<forall>j\<in>set (joints info_arg). interfaces_ok hif j \<and> parses j"
    using configure_loop_None by blast
  from configure_loop_ok [OF all, of ?s1] loop have "s2 = configuring (joints info_arg) ?s1"
    by simp
  with s all show ?thesis
    by (simp add: configuring_def allocated_def Let_def)
qed

lemmas example_defs =
  two_joints_def no_axis_def bad_KV_def second_short_def joint0_def params_def hif0_def
  interfaces_ok_def parses_def parsed_def stoi_at_def stoi_def isspace_def isdigit_def
  digit_value_def

lemma configure_two_joints:
  "configure hif0 dev_ok (OK, CONFIGURED) two_joints fresh0 = (Returned OK, configured2)"
proof -
  have all: "\<forall>j\<in>set (joints two_joints). interfaces_ok hif0 j \<and> parses j"
    by (simp add: example_defs)
  have p: "map (parsed ''axis'') (joints two_joints) = [0, 1]"
    "map (parsed ''KV'') (joints two_joints) = [100, 150]"
    by (simp_all add: example_defs)
  have n: "length (joints two_joints) = 2" by (simp add: two_joints_def)
  show ?thesis
    by (simp add: configure_alt configure_loop_ok [OF all] configuring_def p)
       (simp add: allocated_def n fresh0_def fresh_def resize_Nil dev_ok_def configured2_def
          numeral_2_eq_2)
qed

text \<open>
  Claim C10. \<open>configure\<close> is not atomic. On a new adapter, when the joints before joint
  \<open>b\<close> pass and joint \<open>b\<close> fails a check of its interface declarations (a count other than 3,
  or a first interface that is not position, velocity or effort), the call returns \<open>ERROR\<close>
  with the six buffers and the control levels already resized to the number of joints and
  initialised, and with \<open>axis_\<close> and \<open>KV_\<close> holding the parsed parameters of exactly the
  joints before \<open>b\<close>. The transport is not set up.
\<close>

theorem configure_not_atomic:
  fixes info_arg :: HardwareInfo
  defines "n \<equiv> length (joints info_arg)"
  assumes "fst cd = OK" and "b < n"
    and "\<forall>j<b. interfaces_ok hif (joints info_arg ! j) \<and> parses (joints info_arg ! j)"
    and "\<not> interfaces_ok hif (joints info_arg ! b)"
  shows "configure hif dev cd info_arg (fresh prev st rq us lg) =
     (Returned ERROR,
      \<lparr>info = info_arg, status = snd cd, odrive = False, axis_requested_state = rq,
       axis = map (parsed ''axis'') (take b (joints info_arg)),
       KV = map (parsed ''KV'') (take b (joints info_arg)),
       hw_commands_positions = replicate n (Fin 0),
       hw_commands_velocities = replicate n (Fin 0),
       hw_commands_efforts = replicate n (Fin 0),
       hw_positions = replicate n NaN,
       hw_velocities = replicate n NaN,
       hw_efforts = replicate n NaN,
       control_level = replicate n VELOCITY,
       usb = us, rosout = lg @ [rejection hif (joints info_arg ! b)]\<rparr>)"
proof -
  let ?s1 = "allocated (snd cd) info_arg (fresh prev st rq us lg)"
  have last: "configure_joint hif (joints info_arg ! b) (configuring (take b (joints info_arg)) ?s1) =
      (Some (Returned ERROR),
       (configuring (take b (joints info_arg)) ?s1)\<lparr>rosout :=
          rosout (configuring (take b (joints info_arg)) ?s1) @
          [rejection hif (joints info_arg ! b)]\<rparr>)"
    using assms(5) by (simp add: configure_joint_cases)
  have "for_each (configure_joint hif) (joints info_arg) ?s1 =
      (Some (Returned ERROR),
       (configuring (take b (joints info_arg)) ?s1)\<lparr>rosout :=
          rosout (configuring (take b (joints info_arg)) ?s1) @
          [rejection hif (joints info_arg ! b)]\<rparr>)"
    using assms(3,4) by (intro configure_loop_stop [OF _ _ last]) (simp_all add: n_def)
  then show ?thesis
    using assms(2)
    by (simp add: configure_alt)
       (simp add: allocated_def configuring_def fresh_def resize_Nil n_def Let_def)
qed

text \<open>Three joints, the second one with two command interfaces.\<close>

theorem configure_not_atomic_witness:
  "configure hif0 dev_ok (OK, CONFIGURED) second_short fresh0 =
     (Returned ERROR,
      \<lparr>info = second_short, status = CONFIGURED, odrive = False, axis_requested_state = 0,
       axis = [0], KV = [100],
       hw_commands_positions = [Fin 0, Fin 0, Fin 0],
       hw_commands_velocities = [Fin 0, Fin 0, Fin 0],
       hw_commands_efforts = [Fin 0, Fin 0, Fin 0],
       hw_positions = [NaN, NaN, NaN],
       hw_velocities = [NaN, NaN, NaN],
       hw_efforts = [NaN, NaN, NaN],
       control_level = [VELOCITY, VELOCITY, VELOCITY],
       usb = [], rosout = [ErrCommandCount ''b'']\<rparr>)"
proof -
  have cd: "fst (OK, CONFIGURED) = OK" by simp
  have b: "1 < length (joints second_short)"
    and n: "length (joints second_short) = 3"
    by (simp_all add: second_short_def)
  have pre: "\<forall>j<1. interfaces_ok hif0 (joints second_short ! j) \<and> parses (joints second_short ! j)"
    by (simp add: example_defs)
  have bad: "\<not> interfaces_ok hif0 (joints second_short ! 1)"
    by (simp add: example_defs)
  have r: "rejection hif0 (joints second_short ! Suc 0) = ErrCommandCount ''b''"
    by (simp add: rejection_def second_short_def joint0_def)
  have p: "map (parsed ''axis'') (take (Suc 0) (joints second_short)) = [0]"
    "map (parsed ''KV'') (take (Suc 0) (joints second_short)) = [100]"
    by (simp_all add: example_defs)
  show ?thesis
    using configure_not_atomic [OF cd b pre bad, where dev = dev_ok and st = UNKNOWN
        and prev = "\<lparr>joints = []\<rparr>" and rq = 0 and us = "[]" and lg = "[]"]
    by (simp add: fresh0_def r p n numeral_3_eq_3)
qed

text \<open>
  A joint without the parameter \<open>axis\<close>: \<open>configure\<close> does not return an error status, it
  leaves by the exception \<open>std::out_of_range\<close> of \<open>at\<close>. The claim C5, which promises an
  error status, fails there.
\<close>

theorem configure_absent_axis_counterexample:
  "parameters (joints no_axis ! 1) ''axis'' = None \<and>
   fst (configure hif0 dev_ok (OK, CONFIGURED) no_axis fresh0) = Threw StdOutOfRange \<and>
   fst (configure hif0 dev_ok (OK, CONFIGURED) no_axis fresh0) \<noteq> Returned ERROR"
proof -
  have a: "parameters (joints no_axis ! 1) ''axis'' = None"
    by (simp add: no_axis_def joint0_def)
  have b: "fst (configure hif0 dev_ok (OK, CONFIGURED) no_axis fresh0) = Threw StdOutOfRange"
    by (simp add: configure_alt no_axis_def configure_joint_cases joint0_def params_def hif0_def
        interfaces_ok_def stoi_at_def stoi_def isspace_def isdigit_def digit_value_def)
  from a b show ?thesis by simp
qed

text \<open>
  Claim C5, amended. When \<open>configure\<close> returns \<open>OK\<close>, \<open>std::stoi\<close> has accepted the
  parameters \<open>axis\<close> and \<open>KV\<close> of every joint, and \<open>axis_\<close> and \<open>KV_\<close> have grown by the
  integers it read, in the order of the joints: so \<open>configure\<close> never returns \<open>OK\<close> when a
  parameter is absent or rejected. When \<open>configure_default\<close> has succeeded, the joints
  before joint \<open>b\<close> pass, and the interface declarations of joint \<open>b\<close> pass, then a
  parameter of joint \<open>b\<close> that is absent or rejected ends the call by the exception that
  \<open>at\<close> or \<open>std::stoi\<close> throws (\<open>std::out_of_range\<close> for an absent key or a value outside
  \<open>int\<close>, \<open>std::invalid_argument\<close> for a value without leading digits), not by an error
  status.
\<close>

theorem configure_parameters:
  fixes info_arg :: HardwareInfo
  defines "js \<equiv> joints info_arg"
  shows "(fst (configure hif dev cd info_arg s) = Returned OK \<longrightarrow>
        (\<forall>j\<in>set js.
           stoi_at j ''axis'' = Inr (parsed ''axis'' j) \<and>
           stoi_at j ''KV'' = Inr (parsed ''KV'' j)) \<and>
        axis (snd (configure hif dev cd info_arg s)) = axis s @ map (parsed ''axis'') js \<and>
        KV (snd (configure hif dev cd info_arg s)) = KV s @ map (parsed ''KV'') js) \<and>
     (\<forall>b<length js.
        fst cd = OK \<and> (\<forall>j<b. interfaces_ok hif (js ! j) \<and> parses (js ! j)) \<and>
        interfaces_ok hif (js ! b) \<longrightarrow>
        (\<forall>e. stoi_at (js ! b) ''axis'' = Inl e \<longrightarrow>
             fst (configure hif dev cd info_arg s) = Threw e) \<and>
        (\<forall>e a. stoi_at (js ! b) ''axis'' = Inr a \<and> stoi_at (js ! b) ''KV'' = Inl e \<longrightarrow>
             fst (configure hif dev cd info_arg s) = Threw e))"
proof (intro conjI allI impI)
  assume ok: "fst (configure hif dev cd info_arg s) = Returned OK"
  obtain s' where eq: "configure hif dev cd info_arg s = (Returned OK, s')"
    using ok by (cases "configure hif dev cd info_arg s") simp
  note c = configure_OK [OF eq]
  show "\<forall>j\<in>set js.
           stoi_at j ''axis'' = Inr (parsed ''axis'' j) \<and>
           stoi_at j ''KV'' = Inr (parsed ''KV'' j)"
    using c by (simp add: js_def parses_def)
  show "axis (snd (configure hif dev cd info_arg s)) = axis s @ map (parsed ''axis'') js"
    by (simp add: eq) (simp add: c js_def configuring_def allocated_def Let_def)
  show "KV (snd (configure hif dev cd info_arg s)) = KV s @ map (parsed ''KV'') js"
    by (simp add: eq) (simp add: c js_def configuring_def allocated_def Let_def)
next
  fix b e
  assume b: "b < length js"
    and pre: "fst cd = OK \<and> (\<forall>j<b. interfaces_ok hif (js ! j) \<and> parses (js ! j)) \<and>
        interfaces_ok hif (js ! b)"
    and bad: "stoi_at (js ! b) ''axis'' = Inl e"
  let ?s1 = "allocated (snd cd) info_arg s"
  have last: "configure_joint hif (js ! b) (configuring (take b js) ?s1) =
      (Some (Threw e), configuring (take b js) ?s1)"
    using pre bad by (simp add: configure_joint_cases)
  have "for_each (configure_joint hif) js ?s1 = (Some (Threw e), configuring (take b js) ?s1)"
    using b pre by (intro configure_loop_stop [OF _ _ last]) simp_all
  then show "fst (configure hif dev cd info_arg s) = Threw e"
    using pre by (simp add: configure_alt js_def)
next
  fix b e a
  assume b: "b < length js"
    and pre: "fst cd = OK \<and> (\<forall>j<b. interfaces_ok hif (js ! j) \<and> parses (js ! j)) \<and>
        interfaces_ok hif (js ! b)"
    and bad: "stoi_at (js ! b) ''axis'' = Inr a \<and> stoi_at (js ! b) ''KV'' = Inl e"
  let ?s1 = "allocated (snd cd) info_arg s"
  let ?s2 = "configuring (take b js) ?s1"
  have last: "configure_joint hif (js ! b) ?s2 = (Some (Threw e), ?s2\<lparr>axis := axis ?s2 @ [a]\<rparr>)"
    using pre bad by (simp add: configure_joint_cases)
  have "for_each (configure_joint hif) js ?s1 = (Some (Threw e), ?s2\<lparr>axis := axis ?s2 @ [a]\<rparr>)"
    using b pre by (intro configure_loop_stop [OF _ _ last]) simp_all
  then show "fst (configure hif dev cd info_arg s) = Threw e"
    using pre by (simp add: configure_alt js_def)
qed

text \<open>
  A second joint without \<open>axis\<close>; a joint with the \<open>KV\<close> \<open>abc\<close>; two joints with the
  parameters 0, 100 and 1, 150.
\<close>

theorem configure_parameters_witness:
  "fst (configure hif0 dev_ok (OK, CONFIGURED) no_axis fresh0) = Threw StdOutOfRange \<and>
   fst (configure hif0 dev_ok (OK, CONFIGURED) bad_KV fresh0) = Threw StdInvalidArgument \<and>
   fst (configure hif0 dev_ok (OK, CONFIGURED) two_joints fresh0) = Returned OK \<and>
   axis (snd (configure hif0 dev_ok (OK, CONFIGURED) two_joints fresh0)) = [0, 1] \<and>
   KV (snd (configure hif0 dev_ok (OK, CONFIGURED) two_joints fresh0)) = [100, 150]"
proof -
  note t = configure_parameters [of hif0 dev_ok "(OK, CONFIGURED)" _ fresh0]
  have 1: "fst (configure hif0 dev_ok (OK, CONFIGURED) no_axis fresh0) = Threw StdOutOfRange"
  proof (rule t [THEN conjunct2, rule_format, of 1 no_axis, THEN conjunct1, rule_format])
    show "1 < length (joints no_axis)" by (simp add: no_axis_def)
    show "fst (OK, CONFIGURED) = OK \<and>
      (\<forall>j<1. interfaces_ok hif0 (joints no_axis ! j) \<and> parses (joints no_axis ! j)) \<and>
      interfaces_ok hif0 (joints no_axis ! 1)"
      by (simp add: example_defs)
    show "stoi_at (joints no_axis ! 1) ''axis'' = Inl StdOutOfRange"
      by (simp add: example_defs)
  qed
  have 2: "fst (configure hif0 dev_ok (OK, CONFIGURED) bad_KV fresh0) = Threw StdInvalidArgument"
  proof (rule t [THEN conjunct2, rule_format, of 0 bad_KV, THEN conjunct2, rule_format])
    show "0 < length (joints bad_KV)" by (simp add: bad_KV_def)
    show "fst (OK, CONFIGURED) = OK \<and>
      (\<forall>j<0. interfaces_ok hif0 (joints bad_KV ! j) \<and> parses (joints bad_KV ! j)) \<and>
      interfaces_ok hif0 (joints bad_KV ! 0)"
      by (simp add: example_defs)
    show "stoi_at (joints bad_KV ! 0) ''axis'' = Inr 0 \<and>
      stoi_at (joints bad_KV ! 0) ''KV'' = Inl StdInvalidArgument"
      by (simp add: example_defs)
  qed
  have ok: "fst (configure hif0 dev_ok (OK, CONFIGURED) two_joints fresh0) = Returned OK"
    by (simp add: configure_two_joints)
  have p: "map (parsed ''axis'') (joints two_joints) = [0, 1]"
    "map (parsed ''KV'') (joints two_joints) = [100, 150]"
    by (simp_all add: example_defs)
  have 3: "axis (snd (configure hif0 dev_ok (OK, CONFIGURED) two_joints fresh0)) = [0, 1] \<and>
   KV (snd (configure hif0 dev_ok (OK, CONFIGURED) two_joints fresh0)) = [100, 150]"
    using t [of two_joints, THEN conjunct1, rule_format, OF ok]
    by (simp add: p fresh0_def fresh_def)
  from 1 2 ok 3 show ?thesis by blast
qed


section \<open>The vectors keep their lengths\<close>

lemma same_shape_refl: "same_shape s s"
  by (simp add: same_shape_def)

lemma same_shape_trans: "same_shape s s' \<Longrightarrow> same_shape s' s'' \<Longrightarrow> same_shape s s''"
  by (simp add: same_shape_def)

lemma ready_shape: "ready s \<Longrightarrow> same_shape s s' \<Longrightarrow> ready s'"
  by (simp add: ready_def sized_def same_shape_def Let_def)

lemma request_state_joint_shape: "same_shape s (snd (request_state_joint dev rm i s))"
  by (simp add: request_state_joint_def usb_write_def log_msg_def same_shape_def Let_def)

lemma read_joint_shape: "same_shape s (snd (read_joint dev rm i s))"
  by (simp add: read_joint_def usb_read_def log_msg_def same_shape_def Let_def split_beta)

lemma write_joint_shape: "same_shape s (snd (write_joint dev rm i s))"
  by (cases "control_level s ! i")
     (simp_all add: write_joint_def usb_write_def log_msg_def same_shape_def Let_def)

lemma for_each_shape:
  "(\<And>x s. same_shape s (snd (body x s))) \<Longrightarrow> same_shape s (snd (for_each body xs s))"
proof (induction xs arbitrary: s)
  case Nil
  then show ?case by (simp add: same_shape_refl)
next
  case (Cons x xs)
  obtain r s1 where step: "body x s = (r, s1)" by (cases "body x s")
  have 1: "same_shape s s1" using Cons.prems [of s x] step by simp
  show ?case
  proof (cases r)
    case None
    have "same_shape s1 (snd (for_each body xs s1))"
      by (rule Cons.IH) (rule Cons.prems)
    with 1 None step show ?thesis by (auto intro: same_shape_trans)
  next
    case (Some a)
    with 1 step show ?thesis by simp
  qed
qed

lemma for_each_no_fault:
  assumes "\<And>x s'. x \<in> set xs \<Longrightarrow> P s' \<Longrightarrow> fst (body x s') \<noteq> Some Fault \<and> P (snd (body x s'))"
    and "P s"
  shows "fst (for_each body xs s) \<noteq> Some Fault"
  using assms
proof (induction xs arbitrary: s)
  case Nil
  then show ?case by simp
next
  case (Cons x xs)
  obtain r s1 where step: "body x s = (r, s1)" by (cases "body x s")
  have 1: "r \<noteq> Some Fault" "P s1" using Cons.prems(1) [of x s] Cons.prems(2) step by simp_all
  show ?case
  proof (cases r)
    case None
    have "fst (for_each body xs s1) \<noteq> Some Fault"
      by (rule Cons.IH) (use Cons.prems(1) 1 in auto)
    with None step show ?thesis by simp
  next
    case (Some a)
    with 1 step show ?thesis by simp
  qed
qed

lemma start_shape: "same_shape s (snd (start dev rm s))"
proof -
  have "same_shape (s\<lparr>axis_requested_state := AXIS_STATE_CLOSED_LOOP_CONTROL\<rparr>)
      (snd (for_each (request_state_joint dev rm) [0..<length (joints (info s))]
         (s\<lparr>axis_requested_state := AXIS_STATE_CLOSED_LOOP_CONTROL\<rparr>)))"
    by (rule for_each_shape) (rule request_state_joint_shape)
  then show ?thesis
    by (auto simp: start_def Let_def same_shape_def split: prod.splits option.splits)
qed

lemma stop_shape: "same_shape s (snd (stop dev rm s))"
proof -
  have "same_shape (s\<lparr>axis_requested_state := AXIS_STATE_IDLE\<rparr>)
      (snd (for_each (request_state_joint dev rm) [0..<length (joints (info s))]
         (s\<lparr>axis_requested_state := AXIS_STATE_IDLE\<rparr>)))"
    by (rule for_each_shape) (rule request_state_joint_shape)
  then show ?thesis
    by (auto simp: stop_def Let_def same_shape_def split: prod.splits option.splits)
qed

lemma read_shape: "same_shape s (snd (read dev rm s))"
  using for_each_shape [of "read_joint dev rm" s "[0..<length (joints (info s))]"]
    read_joint_shape
  by (auto simp: read_def split: prod.splits option.splits)

lemma write_shape: "same_shape s (snd (write dev rm s))"
  using for_each_shape [of "write_joint dev rm" s "[0..<length (joints (info s))]"]
    write_joint_shape
  by (auto simp: write_def split: prod.splits option.splits)

lemma step_shape: "same_shape s (snd (step dev rm c s))"
  by (cases c) (simp_all add: start_shape stop_shape read_shape write_shape)

lemma run_shape: "same_shape s (run dev rm cs s)"
proof (induction cs arbitrary: s)
  case Nil
  then show ?case by (simp add: same_shape_refl)
next
  case (Cons c cs)
  show ?case
    using step_shape [of s dev rm c] Cons.IH [of "snd (step dev rm c s)"]
    by (auto intro: same_shape_trans)
qed

lemma fit_shape: "fit n s \<Longrightarrow> same_shape s s' \<Longrightarrow> fit n s'"
  using ready_shape by (auto simp: fit_def same_shape_def)

lemma request_state_joint_no_fault:
  "fit n s \<Longrightarrow> i < n \<Longrightarrow> fst (request_state_joint dev rm i s) \<noteq> Some Fault"
  by (simp add: fit_def ready_def sized_def request_state_joint_def usb_write_def Let_def)

lemma read_joint_no_fault:
  "fit n s \<Longrightarrow> i < n \<Longrightarrow> fst (read_joint dev rm i s) \<noteq> Some Fault"
  by (simp add: fit_def ready_def sized_def read_joint_def usb_read_def log_msg_def Let_def
      split_beta)

lemma write_joint_no_fault:
  "fit n s \<Longrightarrow> i < n \<Longrightarrow> fst (write_joint dev rm i s) \<noteq> Some Fault"
  by (cases "control_level s ! i")
     (simp_all add: fit_def ready_def sized_def write_joint_def usb_write_def log_msg_def Let_def)

lemma loop_no_fault:
  assumes "\<And>i s'. fit n s' \<Longrightarrow> i < n \<Longrightarrow> fst (body i s') \<noteq> Some Fault"
    and "\<And>i s'. same_shape s' (snd (body i s'))" and "fit n s"
  shows "fst (for_each body [0..<n] s) \<noteq> Some Fault"
  by (rule for_each_no_fault [where P = "fit n"])
     (use assms fit_shape in \<open>auto\<close>)

lemma step_no_fault:
  assumes "ready s"
  shows "fst (step dev rm c s) \<noteq> Fault"
proof -
  let ?n = "length (joints (info s))"
  have f: "fit ?n s" using assms by (simp add: fit_def)
  have f8: "fit ?n (s\<lparr>axis_requested_state := AXIS_STATE_CLOSED_LOOP_CONTROL\<rparr>)"
    and f1: "fit ?n (s\<lparr>axis_requested_state := AXIS_STATE_IDLE\<rparr>)"
    using assms by (simp_all add: fit_def ready_def sized_def)
  show ?thesis
  proof (cases c)
    case Start
    have "fst (for_each (request_state_joint dev rm) [0..<?n]
        (s\<lparr>axis_requested_state := AXIS_STATE_CLOSED_LOOP_CONTROL\<rparr>)) \<noteq> Some Fault"
      by (rule loop_no_fault [OF request_state_joint_no_fault request_state_joint_shape f8])
    with Start show ?thesis
      by (auto simp: start_def Let_def split: prod.splits option.splits)
  next
    case Stop
    have "fst (for_each (request_state_joint dev rm) [0..<?n]
        (s\<lparr>axis_requested_state := AXIS_STATE_IDLE\<rparr>)) \<noteq> Some Fault"
      by (rule loop_no_fault [OF request_state_joint_no_fault request_state_joint_shape f1])
    with Stop show ?thesis
      by (auto simp: stop_def Let_def split: prod.splits option.splits)
  next
    case Read
    have "fst (for_each (read_joint dev rm) [0..<?n] s) \<noteq> Some Fault"
      by (rule loop_no_fault [OF read_joint_no_fault read_joint_shape f])
    with Read show ?thesis
      by (auto simp: read_def split: prod.splits option.splits)
  next
    case Write
    have "fst (for_each (write_joint dev rm) [0..<?n] s) \<noteq> Some Fault"
      by (rule loop_no_fault [OF write_joint_no_fault write_joint_shape f])
    with Write show ?thesis
      by (auto simp: write_def split: prod.splits option.splits)
  qed
qed

text \<open>
  Claim C8. After a successful \<open>configure\<close> of a new adapter with \<open>n\<close> joints, \<open>axis_\<close> and
  \<open>KV_\<close> have \<open>n\<close> entries, the three state buffers are \<open>n\<close> times not-a-number, the three
  command buffers \<open>n\<close> times zero, and every control level is \<open>VELOCITY\<close>. After any
  sequence of calls of \<open>start\<close>, \<open>stop\<close>, \<open>read\<close> and \<open>write\<close>, whatever the device answers,
  the joints are the same and all the vectors still have \<open>n\<close> entries (\<open>sized\<close>); none of
  these calls reads a vector out of range or uses the transport before it exists.
\<close>

theorem configure_sizes:
  fixes info_arg :: HardwareInfo
  defines "n \<equiv> length (joints info_arg)"
  assumes "configure hif dev cd info_arg (fresh prev st rq us lg) = (Returned OK, s)"
  shows "info s = info_arg \<and> length (axis s) = n \<and> length (KV s) = n \<and>
     hw_positions s = replicate n NaN \<and>
     hw_velocities s = replicate n NaN \<and>
     hw_efforts s = replicate n NaN \<and>
     hw_commands_positions s = replicate n (Fin 0) \<and>
     hw_commands_velocities s = replicate n (Fin 0) \<and>
     hw_commands_efforts s = replicate n (Fin 0) \<and>
     control_level s = replicate n VELOCITY \<and>
     (\<forall>cs. sized (run dev' rm cs s) \<and> info (run dev' rm cs s) = info_arg \<and>
           (\<forall>c. fst (step dev' rm c (run dev' rm cs s)) \<noteq> Fault))"
proof -
  have s: "s = (configuring (joints info_arg)
        (allocated (snd cd) info_arg (fresh prev st rq us lg)))
           \<lparr>odrive := True, usb := usb (fresh prev st rq us lg) @ [UsbInit], status := CONFIGURED\<rparr>"
    using configure_OK [OF assms(2)] by simp
  have fields: "info s = info_arg" "length (axis s) = n" "length (KV s) = n"
     "hw_positions s = replicate n NaN"
     "hw_velocities s = replicate n NaN"
     "hw_efforts s = replicate n NaN"
     "hw_commands_positions s = replicate n (Fin 0)"
     "hw_commands_velocities s = replicate n (Fin 0)"
     "hw_commands_efforts s = replicate n (Fin 0)"
     "control_level s = replicate n VELOCITY" "odrive s"
    by (simp_all add: s configuring_def allocated_def fresh_def resize_Nil Let_def n_def)
  then have r: "ready s" by (simp add: ready_def sized_def n_def)
  have life: "sized (run dev' rm cs s) \<and> info (run dev' rm cs s) = info_arg \<and>
           (\<forall>c. fst (step dev' rm c (run dev' rm cs s)) \<noteq> Fault)" for cs
  proof -
    have sh: "same_shape s (run dev' rm cs s)" by (rule run_shape)
    then have r': "ready (run dev' rm cs s)" using r ready_shape by blast
    from sh fields(1) have "info (run dev' rm cs s) = info_arg" by (simp add: same_shape_def)
    with r' step_no_fault [OF r'] show ?thesis by (simp add: ready_def)
  qed
  from fields life show ?thesis by blast
qed

text \<open>Two joints, then five calls on a device that fails once.\<close>

theorem configure_sizes_witness:
  "configure hif0 dev_ok (OK, CONFIGURED) two_joints fresh0 = (Returned OK, configured2) \<and>
   length (axis configured2) = 2 \<and> length (KV configured2) = 2 \<and>
   hw_positions configured2 = [NaN, NaN] \<and>
   hw_commands_velocities configured2 = [Fin 0, Fin 0] \<and>
   control_level configured2 = [VELOCITY, VELOCITY] \<and>
   sized (run (dev_fail_at 7) rm0 [Start, Read, Write, Read, Stop] configured2) \<and>
   fst (step (dev_fail_at 7) rm0 Write
          (run (dev_fail_at 7) rm0 [Start, Read, Write, Read, Stop] configured2)) \<noteq> Fault"
proof -
  have eq: "configure hif0 dev_ok (OK, CONFIGURED) two_joints
      (fresh \<lparr>joints = []\<rparr> UNKNOWN 0 [] []) = (Returned OK, configured2)"
    using configure_two_joints by (simp add: fresh0_def)
  have n: "length (joints two_joints) = 2" by (simp add: two_joints_def)
  note t = configure_sizes [OF eq, unfolded n, of "dev_fail_at 7" rm0]
  have "sized (run (dev_fail_at 7) rm0 [Start, Read, Write, Read, Stop] configured2) \<and>
   fst (step (dev_fail_at 7) rm0 Write
          (run (dev_fail_at 7) rm0 [Start, Read, Write, Read, Stop] configured2)) \<noteq> Fault"
    using t by blast
  moreover have "length (axis configured2) = 2 \<and> length (KV configured2) = 2 \<and>
   hw_positions configured2 = [NaN, NaN] \<and>
   hw_commands_velocities configured2 = [Fin 0, Fin 0] \<and>
   control_level configured2 = [VELOCITY, VELOCITY]"
    using t by (simp add: numeral_2_eq_2)
  ultimately show ?thesis using configure_two_joints by blast
qed


end
